theory Spec2Isabelle
  imports Main "HOL-Library.Word"
begin

unbundle bit_operations_syntax

section \<open>Python values used by the treasury system\<close>

text \<open>
  The module \<^verbatim>\<open>stms.py\<close> works on Python \<^verbatim>\<open>str\<close>, \<^verbatim>\<open>bytes\<close> and \<^verbatim>\<open>int\<close>
  values. A \<^verbatim>\<open>str\<close> is a sequence of Unicode code points, a \<^verbatim>\<open>bytes\<close> value a
  sequence of octets, an \<^verbatim>\<open>int\<close> is unbounded. An exception that leaves a function
  is the left summand of its result.
\<close>

type_synonym byte = "8 word"

type_synonym pystr = "nat list"

datatype exn = ValueError | TypeError | UnicodeEncodeError | Raised string

text \<open>A literal of the source text, as a sequence of code points.\<close>

definition py :: "string \<Rightarrow> pystr" where
  "py s = map of_char s"

text \<open>
  \<^verbatim>\<open>str.encode()\<close>: UTF-8 with the strict error handler. The surrogate code points
  U+D800 .. U+DFFF have no UTF-8 form and raise \<^verbatim>\<open>UnicodeEncodeError\<close>. A Python
  \<^verbatim>\<open>str\<close> holds no code point above U+10FFFF; the last branch is never taken on one.
\<close>

definition utf8_char :: "nat \<Rightarrow> exn + byte list" where
  "utf8_char c =
    (if c < 0x80 then Inr [of_nat c]
     else if c < 0x800 then Inr [of_nat (0xC0 + c div 64), of_nat (0x80 + c mod 64)]
     else if 0xD800 \<le> c \<and> c \<le> 0xDFFF then Inl UnicodeEncodeError
     else if c < 0x10000 then
       Inr [of_nat (0xE0 + c div 4096), of_nat (0x80 + c div 64 mod 64), of_nat (0x80 + c mod 64)]
     else if c < 0x110000 then
       Inr [of_nat (0xF0 + c div 262144), of_nat (0x80 + c div 4096 mod 64),
            of_nat (0x80 + c div 64 mod 64), of_nat (0x80 + c mod 64)]
     else Inl UnicodeEncodeError)"

fun encode :: "pystr \<Rightarrow> exn + byte list" where
  "encode [] = Inr []"
| "encode (c # cs) =
    (case utf8_char c of
       Inl e \<Rightarrow> Inl e
     | Inr bs \<Rightarrow> (case encode cs of Inl e \<Rightarrow> Inl e | Inr rest \<Rightarrow> Inr (bs @ rest)))"

text \<open>\<^verbatim>\<open>bytes.hex()\<close>: two lowercase hexadecimal digits for every octet.\<close>

definition hex_digit :: "nat \<Rightarrow> nat" where
  "hex_digit d = (if d < 10 then 48 + d else 87 + d)"

definition bytes_hex :: "byte list \<Rightarrow> pystr" where
  "bytes_hex bs = concat (map (\<lambda>b. [hex_digit (unat b div 16), hex_digit (unat b mod 16)]) bs)"

text \<open>\<^verbatim>\<open>int.from_bytes(bs, 'big')\<close>.\<close>

definition from_bytes_big :: "byte list \<Rightarrow> int" where
  "from_bytes_big bs = foldl (\<lambda>acc b. acc * 256 + uint b) 0 bs"

text \<open>An \<^verbatim>\<open>int\<close> inside an f-string: its decimal digits, with a minus sign when negative.\<close>

fun digits :: "nat \<Rightarrow> pystr" where
  "digits n = (if n < 10 then [48 + n] else digits (n div 10) @ [48 + n mod 10])"

declare digits.simps [simp del]

definition str_int :: "int \<Rightarrow> pystr" where
  "str_int i = (if i < 0 then 45 # digits (nat (- i)) else digits (nat i))"

text \<open>\<^verbatim>\<open>range(count)\<close>: empty when \<open>count \<le> 0\<close>.\<close>

definition py_range :: "int \<Rightarrow> int list" where
  "py_range count = map int [0..<nat count]"

section \<open>The imported collaborators\<close>

text \<open>
  \<^verbatim>\<open>hashlib\<close>, \<^verbatim>\<open>mnemonic\<close>, \<^verbatim>\<open>bip32utils\<close> and \<^verbatim>\<open>eth_account\<close> are imported by
  the module and are no part of it. The functions of theirs that the module calls are the
  fields of one record, over an arbitrary type \<open>'k\<close> of \<^verbatim>\<open>BIP32Key\<close> objects:
  \<^item> \<open>sha256 bs\<close> is \<^verbatim>\<open>hashlib.sha256(bs).digest()\<close>;
  \<^item> \<open>mnemonic_check m\<close> is \<^verbatim>\<open>Mnemonic("english").check(m)\<close> and \<open>to_seed m\<close> is
    \<^verbatim>\<open>Mnemonic.to_seed(m, passphrase="")\<close>;
  \<^item> \<open>fromEntropy\<close>, \<open>fromExtendedKey\<close>, \<open>ChildKey\<close>, \<open>PrivateKey\<close> and \<open>ExtendedKey\<close>
    are the methods of \<^verbatim>\<open>BIP32Key\<close>. \<open>ExtendedKey k private\<close> is
    \<^verbatim>\<open>k.ExtendedKey(private=private)\<close>; the method's signature is
    \<^verbatim>\<open>ExtendedKey(self, private=True, encoded=True)\<close>, so the call \<^verbatim>\<open>k.ExtendedKey()\<close>
    of the module is \<open>ExtendedKey k True\<close>. \<open>ChildKey k i\<close> is \<open>Inl\<close> when the method
    raises and also when it returns \<^verbatim>\<open>None\<close> (an invalid child key): every call of the
    module is followed by a method call on the result, which then raises
    \<^verbatim>\<open>AttributeError\<close>;
  \<^item> \<open>from_key_address x\<close> is \<^verbatim>\<open>Account.from_key(x).address\<close>, called with a
    hexadecimal \<^verbatim>\<open>str\<close> by \<^verbatim>\<open>generate_account\<close> and with \<^verbatim>\<open>bytes\<close> by
    \<^verbatim>\<open>derive_addresses_from_xpub\<close>.
  The collaborators are functions: a call neither reads nor changes anything but its
  arguments.
\<close>

datatype keyarg = KeyHex pystr | KeyBytes "byte list"

record 'k collab =
  sha256 :: "byte list \<Rightarrow> byte list"
  mnemonic_check :: "pystr \<Rightarrow> bool"
  to_seed :: "pystr \<Rightarrow> byte list"
  fromEntropy :: "byte list \<Rightarrow> exn + 'k"
  fromExtendedKey :: "pystr \<Rightarrow> exn + 'k"
  ChildKey :: "'k \<Rightarrow> int \<Rightarrow> exn + 'k"
  PrivateKey :: "'k \<Rightarrow> exn + byte list"
  ExtendedKey :: "'k \<Rightarrow> bool \<Rightarrow> exn + pystr"
  from_key_address :: "keyarg \<Rightarrow> exn + pystr"

section \<open>The class TreasurySystem\<close>

record 'k TreasurySystem =
  seed :: "byte list"
  root_key :: 'k

text \<open>\<^verbatim>\<open>__init__\<close> (the log line apart).\<close>

definition init :: "'k collab \<Rightarrow> pystr \<Rightarrow> exn + 'k TreasurySystem" where
  "init L mnemonic =
    (if \<not> mnemonic_check L mnemonic then Inl ValueError
     else
       let s = to_seed L mnemonic in
       (case fromEntropy L s of
          Inl e \<Rightarrow> Inl e
        | Inr k \<Rightarrow> Inr \<lparr>seed = s, root_key = k\<rparr>))"

text \<open>
  \<^verbatim>\<open>_hierarchical_hash\<close>, a static method. \<open>entity_input\<close> and \<open>dept_input\<close> are
  its two f-strings, \<^verbatim>\<open>f"ENTITY:{entity}"\<close> and
  \<^verbatim>\<open>f"DEPT:{entity_hash.hex()}:{department}"\<close>, before \<^verbatim>\<open>.encode()\<close>.
\<close>

definition entity_input :: "pystr \<Rightarrow> pystr" where
  "entity_input entity = py ''ENTITY:'' @ entity"

definition dept_input :: "byte list \<Rightarrow> pystr \<Rightarrow> pystr" where
  "dept_input entity_hash department = py ''DEPT:'' @ bytes_hex entity_hash @ py '':'' @ department"

definition hierarchical_hash :: "'k collab \<Rightarrow> pystr \<Rightarrow> pystr \<Rightarrow> exn + (int \<times> int)" where
  "hierarchical_hash L entity department =
    (case encode (entity_input entity) of
       Inl e \<Rightarrow> Inl e
     | Inr entity_bytes \<Rightarrow>
         let entity_hash = sha256 L entity_bytes;
             entity_index = from_bytes_big (take 4 entity_hash) OR 0x80000000
         in
         (case encode (dept_input entity_hash department) of
            Inl e \<Rightarrow> Inl e
          | Inr dept_bytes \<Rightarrow>
              let dept_hash = sha256 L dept_bytes;
                  dept_index = from_bytes_big (take 4 dept_hash) OR 0x80000000
              in Inr (entity_index, dept_index)))"

text \<open>
  \<^verbatim>\<open>_derive_key\<close>: the loop over the path. Every index of a path is an \<^verbatim>\<open>int\<close> here,
  so the \<^verbatim>\<open>isinstance\<close> test of the loop never raises.
\<close>

fun derive_loop :: "'k collab \<Rightarrow> 'k \<Rightarrow> int list \<Rightarrow> exn + 'k" where
  "derive_loop L current_key [] = Inr current_key"
| "derive_loop L current_key (index # rest) =
    (case ChildKey L current_key index of
       Inl e \<Rightarrow> Inl e
     | Inr k \<Rightarrow> derive_loop L k rest)"

definition derive_key :: "'k collab \<Rightarrow> 'k TreasurySystem \<Rightarrow> int list \<Rightarrow> exn + 'k" where
  "derive_key L self segments = derive_loop L (root_key self) segments"

record account =
  path :: pystr
  private_key :: pystr
  address :: pystr

definition generate_account ::
  "'k collab \<Rightarrow> 'k TreasurySystem \<Rightarrow> pystr \<Rightarrow> pystr \<Rightarrow> int \<Rightarrow> exn + account" where
  "generate_account L self entity department account_idx =
    (case hierarchical_hash L entity department of
       Inl e \<Rightarrow> Inl e
     | Inr (e_idx, d_idx) \<Rightarrow>
         let derivation_path = [0x8000002C, 0x8000003C, e_idx, d_idx, account_idx] in
         (case derive_key L self derivation_path of
            Inl e \<Rightarrow> Inl e
          | Inr key \<Rightarrow>
              (case PrivateKey L key of
                 Inl e \<Rightarrow> Inl e
               | Inr secret \<Rightarrow>
                   let priv_key = bytes_hex secret in
                   (case from_key_address L (KeyHex priv_key) of
                      Inl e \<Rightarrow> Inl e
                    | Inr a \<Rightarrow>
                        Inr \<lparr>path = py ''m/44'/60'/'' @ str_int e_idx @ py '''/'' @ str_int d_idx
                                     @ py '''/'' @ str_int account_idx,
                             private_key = priv_key,
                             address = a\<rparr>))))"

definition get_audit_xpub ::
  "'k collab \<Rightarrow> 'k TreasurySystem \<Rightarrow> pystr \<Rightarrow> pystr \<Rightarrow> exn + pystr" where
  "get_audit_xpub L self entity department =
    (case hierarchical_hash L entity department of
       Inl e \<Rightarrow> Inl e
     | Inr (e_idx, d_idx) \<Rightarrow>
         let segments = [0x8000002C, 0x8000003C, e_idx, d_idx] in
         (case derive_key L self segments of
            Inl e \<Rightarrow> Inl e
          | Inr key \<Rightarrow> ExtendedKey L key True))"

definition get_dept_xprv ::
  "'k collab \<Rightarrow> 'k TreasurySystem \<Rightarrow> pystr \<Rightarrow> pystr \<Rightarrow> exn + pystr" where
  "get_dept_xprv L self entity department =
    (case hierarchical_hash L entity department of
       Inl e \<Rightarrow> Inl e
     | Inr (e_idx, d_idx) \<Rightarrow>
         let segments = [0x8000002C, 0x8000003C, e_idx, d_idx] in
         (case derive_key L self segments of
            Inl e \<Rightarrow> Inl e
          | Inr key \<Rightarrow> ExtendedKey L key True))"

text \<open>
  \<^verbatim>\<open>derive_addresses_from_xpub\<close>, a static method. \<open>child_address\<close> is the element
  expression of its list comprehension, \<open>addresses_loop\<close> the comprehension: the first
  element that raises ends it.
\<close>

definition child_address :: "'k collab \<Rightarrow> 'k \<Rightarrow> int \<Rightarrow> exn + pystr" where
  "child_address L audit_key i =
    (case ChildKey L audit_key i of
       Inl e \<Rightarrow> Inl e
     | Inr child \<Rightarrow>
         (case PrivateKey L child of
            Inl e \<Rightarrow> Inl e
          | Inr secret \<Rightarrow> from_key_address L (KeyBytes secret)))"

fun addresses_loop :: "'k collab \<Rightarrow> 'k \<Rightarrow> int list \<Rightarrow> exn + pystr list" where
  "addresses_loop L audit_key [] = Inr []"
| "addresses_loop L audit_key (i # rest) =
    (case child_address L audit_key i of
       Inl e \<Rightarrow> Inl e
     | Inr a \<Rightarrow>
         (case addresses_loop L audit_key rest of
            Inl e \<Rightarrow> Inl e
          | Inr others \<Rightarrow> Inr (a # others)))"

definition derive_addresses_from_xpub :: "'k collab \<Rightarrow> pystr \<Rightarrow> int \<Rightarrow> exn + pystr list" where
  "derive_addresses_from_xpub L xpub count =
    (case fromExtendedKey L xpub of
       Inl e \<Rightarrow> Inl e
     | Inr audit_key \<Rightarrow> addresses_loop L audit_key (py_range count))"

section \<open>The engine and its keys as objects\<close>

text \<open>
  A \<^verbatim>\<open>BIP32Key\<close> is an object, and \<^verbatim>\<open>self.root_key\<close> is a reference to one:
  \<^verbatim>\<open>_derive_key\<close> starts from \<^verbatim>\<open>current_key = self.root_key\<close>, the same object, and calls
  \<^verbatim>\<open>ChildKey\<close> on it. Whether a call leaves the engine as it was therefore depends on
  what the methods of \<^verbatim>\<open>BIP32Key\<close> do to the objects they are called on. Here the key
  objects live in a store, a list indexed by references; a method of \<^verbatim>\<open>BIP32Key\<close> takes
  the store and returns the store it leaves; and the operations of the engine are written
  once more, statement by statement, passing the store along. \<^verbatim>\<open>_hierarchical_hash\<close> and
  \<^verbatim>\<open>Account.from_key\<close> are given \<^verbatim>\<open>str\<close> and \<^verbatim>\<open>bytes\<close> values, which cannot change, and
  stay functions.
\<close>

record 'k key_methods =
  fromExtendedKey_m :: "pystr \<Rightarrow> 'k list \<Rightarrow> (exn + nat) \<times> 'k list"
  ChildKey_m :: "nat \<Rightarrow> int \<Rightarrow> 'k list \<Rightarrow> (exn + nat) \<times> 'k list"
  PrivateKey_m :: "nat \<Rightarrow> 'k list \<Rightarrow> (exn + byte list) \<times> 'k list"
  ExtendedKey_m :: "nat \<Rightarrow> bool \<Rightarrow> 'k list \<Rightarrow> (exn + pystr) \<times> 'k list"

text \<open>
  The fields of the engine (\<^verbatim>\<open>self.seed\<close>, and \<^verbatim>\<open>self.root_key\<close> as a reference), and
  the store of key objects.
\<close>

record 'k world =
  self_seed :: "byte list"
  self_root_key :: nat
  objects :: "'k list"

fun derive_loop_st :: "'k key_methods \<Rightarrow> nat \<Rightarrow> int list \<Rightarrow> 'k list \<Rightarrow> (exn + nat) \<times> 'k list" where
  "derive_loop_st M current_key [] h = (Inr current_key, h)"
| "derive_loop_st M current_key (index # rest) h =
    (case ChildKey_m M current_key index h of
       (Inl e, h') \<Rightarrow> (Inl e, h')
     | (Inr k, h') \<Rightarrow> derive_loop_st M k rest h')"

definition derive_key_st :: "'k key_methods \<Rightarrow> int list \<Rightarrow> 'k world \<Rightarrow> (exn + nat) \<times> 'k world" where
  "derive_key_st M segments w =
    (case derive_loop_st M (self_root_key w) segments (objects w) of
       (r, h') \<Rightarrow> (r, w\<lparr>objects := h'\<rparr>))"

definition generate_account_st ::
  "'k collab \<Rightarrow> 'k key_methods \<Rightarrow> pystr \<Rightarrow> pystr \<Rightarrow> int \<Rightarrow> 'k world \<Rightarrow> (exn + account) \<times> 'k world" where
  "generate_account_st P M entity department account_idx w =
    (case hierarchical_hash P entity department of
       Inl e \<Rightarrow> (Inl e, w)
     | Inr (e_idx, d_idx) \<Rightarrow>
         let derivation_path = [0x8000002C, 0x8000003C, e_idx, d_idx, account_idx] in
         (case derive_key_st M derivation_path w of
            (Inl e, w1) \<Rightarrow> (Inl e, w1)
          | (Inr key, w1) \<Rightarrow>
              (case PrivateKey_m M key (objects w1) of
                 (Inl e, h2) \<Rightarrow> (Inl e, w1\<lparr>objects := h2\<rparr>)
               | (Inr secret, h2) \<Rightarrow>
                   let priv_key = bytes_hex secret in
                   (case from_key_address P (KeyHex priv_key) of
                      Inl e \<Rightarrow> (Inl e, w1\<lparr>objects := h2\<rparr>)
                    | Inr a \<Rightarrow>
                        (Inr \<lparr>path = py ''m/44'/60'/'' @ str_int e_idx @ py '''/'' @ str_int d_idx
                                      @ py '''/'' @ str_int account_idx,
                              private_key = priv_key,
                              address = a\<rparr>,
                         w1\<lparr>objects := h2\<rparr>)))))"

definition get_audit_xpub_st ::
  "'k collab \<Rightarrow> 'k key_methods \<Rightarrow> pystr \<Rightarrow> pystr \<Rightarrow> 'k world \<Rightarrow> (exn + pystr) \<times> 'k world" where
  "get_audit_xpub_st P M entity department w =
    (case hierarchical_hash P entity department of
       Inl e \<Rightarrow> (Inl e, w)
     | Inr (e_idx, d_idx) \<Rightarrow>
         let segments = [0x8000002C, 0x8000003C, e_idx, d_idx] in
         (case derive_key_st M segments w of
            (Inl e, w1) \<Rightarrow> (Inl e, w1)
          | (Inr key, w1) \<Rightarrow>
              (case ExtendedKey_m M key True (objects w1) of
                 (r, h2) \<Rightarrow> (r, w1\<lparr>objects := h2\<rparr>))))"

definition get_dept_xprv_st ::
  "'k collab \<Rightarrow> 'k key_methods \<Rightarrow> pystr \<Rightarrow> pystr \<Rightarrow> 'k world \<Rightarrow> (exn + pystr) \<times> 'k world" where
  "get_dept_xprv_st P M entity department w =
    (case hierarchical_hash P entity department of
       Inl e \<Rightarrow> (Inl e, w)
     | Inr (e_idx, d_idx) \<Rightarrow>
         let segments = [0x8000002C, 0x8000003C, e_idx, d_idx] in
         (case derive_key_st M segments w of
            (Inl e, w1) \<Rightarrow> (Inl e, w1)
          | (Inr key, w1) \<Rightarrow>
              (case ExtendedKey_m M key True (objects w1) of
                 (r, h2) \<Rightarrow> (r, w1\<lparr>objects := h2\<rparr>))))"

definition child_address_st ::
  "'k collab \<Rightarrow> 'k key_methods \<Rightarrow> nat \<Rightarrow> int \<Rightarrow> 'k list \<Rightarrow> (exn + pystr) \<times> 'k list" where
  "child_address_st P M audit_key i h =
    (case ChildKey_m M audit_key i h of
       (Inl e, h1) \<Rightarrow> (Inl e, h1)
     | (Inr child, h1) \<Rightarrow>
         (case PrivateKey_m M child h1 of
            (Inl e, h2) \<Rightarrow> (Inl e, h2)
          | (Inr secret, h2) \<Rightarrow> (from_key_address P (KeyBytes secret), h2)))"

fun addresses_loop_st ::
  "'k collab \<Rightarrow> 'k key_methods \<Rightarrow> nat \<Rightarrow> int list \<Rightarrow> 'k list \<Rightarrow> (exn + pystr list) \<times> 'k list" where
  "addresses_loop_st P M audit_key [] h = (Inr [], h)"
| "addresses_loop_st P M audit_key (i # rest) h =
    (case child_address_st P M audit_key i h of
       (Inl e, h1) \<Rightarrow> (Inl e, h1)
     | (Inr a, h1) \<Rightarrow>
         (case addresses_loop_st P M audit_key rest h1 of
            (Inl e, h2) \<Rightarrow> (Inl e, h2)
          | (Inr others, h2) \<Rightarrow> (Inr (a # others), h2)))"

definition derive_addresses_from_xpub_st ::
  "'k collab \<Rightarrow> 'k key_methods \<Rightarrow> pystr \<Rightarrow> int \<Rightarrow> 'k world \<Rightarrow> (exn + pystr list) \<times> 'k world" where
  "derive_addresses_from_xpub_st P M xpub count w =
    (case fromExtendedKey_m M xpub (objects w) of
       (Inl e, h1) \<Rightarrow> (Inl e, w\<lparr>objects := h1\<rparr>)
     | (Inr audit_key, h1) \<Rightarrow>
         (case addresses_loop_st P M audit_key (py_range count) h1 of
            (r, h2) \<Rightarrow> (r, w\<lparr>objects := h2\<rparr>)))"

text \<open>A call of a public operation, and a sequence of calls one after the other.\<close>

datatype call =
    Generate_account pystr pystr int
  | Get_audit_xpub pystr pystr
  | Get_dept_xprv pystr pystr
  | Derive_addresses_from_xpub pystr int

datatype returned = Account account | Text pystr | Addresses "pystr list"

definition lift_result :: "('a \<Rightarrow> returned) \<Rightarrow> exn + 'a \<Rightarrow> exn + returned" where
  "lift_result f r = (case r of Inl e \<Rightarrow> Inl e | Inr v \<Rightarrow> Inr (f v))"

fun invoke :: "'k collab \<Rightarrow> 'k key_methods \<Rightarrow> call \<Rightarrow> 'k world \<Rightarrow> (exn + returned) \<times> 'k world" where
  "invoke P M (Generate_account entity department account_idx) w =
     (case generate_account_st P M entity department account_idx w of
        (r, w') \<Rightarrow> (lift_result Account r, w'))"
| "invoke P M (Get_audit_xpub entity department) w =
     (case get_audit_xpub_st P M entity department w of
        (r, w') \<Rightarrow> (lift_result Text r, w'))"
| "invoke P M (Get_dept_xprv entity department) w =
     (case get_dept_xprv_st P M entity department w of
        (r, w') \<Rightarrow> (lift_result Text r, w'))"
| "invoke P M (Derive_addresses_from_xpub xpub count) w =
     (case derive_addresses_from_xpub_st P M xpub count w of
        (r, w') \<Rightarrow> (lift_result Addresses r, w'))"

fun run :: "'k collab \<Rightarrow> 'k key_methods \<Rightarrow> call list \<Rightarrow> 'k world \<Rightarrow> 'k world" where
  "run P M [] w = w"
| "run P M (c # cs) w = run P M cs (snd (invoke P M c w))"

text \<open>
  What a call returns when keys are values: the operations of the previous section on
  the engine whose root key is the object that \<^verbatim>\<open>self.root_key\<close> refers to.
\<close>

definition engine_of :: "'k world \<Rightarrow> 'k TreasurySystem" where
  "engine_of w = \<lparr>seed = self_seed w, root_key = objects w ! self_root_key w\<rparr>"

fun call_result :: "'k collab \<Rightarrow> 'k TreasurySystem \<Rightarrow> call \<Rightarrow> exn + returned" where
  "call_result P self (Generate_account entity department account_idx) =
     lift_result Account (generate_account P self entity department account_idx)"
| "call_result P self (Get_audit_xpub entity department) =
     lift_result Text (get_audit_xpub P self entity department)"
| "call_result P self (Get_dept_xprv entity department) =
     lift_result Text (get_dept_xprv P self entity department)"
| "call_result P self (Derive_addresses_from_xpub xpub count) =
     lift_result Addresses (derive_addresses_from_xpub P xpub count)"

text \<open>
  What is asked of \<^verbatim>\<open>bip32utils\<close>: a method called on a key object leaves every object
  of the store as it is and may add new ones (\<^verbatim>\<open>ChildKey\<close> and \<^verbatim>\<open>fromExtendedKey\<close>
  return a new \<^verbatim>\<open>BIP32Key\<close>), and what it returns is what the function of \<open>P\<close> returns
  on the value of the object.
\<close>

definition extends :: "'a list \<Rightarrow> 'a list \<Rightarrow> bool" where
  "extends h h' = (take (length h) h' = h)"

definition implements :: "'k key_methods \<Rightarrow> 'k collab \<Rightarrow> bool" where
  "implements M P =
    ((\<forall>a i h r h'. a < length h \<longrightarrow> ChildKey_m M a i h = (r, h') \<longrightarrow>
        extends h h' \<and>
        (case r of
           Inl e \<Rightarrow> ChildKey P (h ! a) i = Inl e
         | Inr c \<Rightarrow> c < length h' \<and> ChildKey P (h ! a) i = Inr (h' ! c))) \<and>
     (\<forall>a h r h'. a < length h \<longrightarrow> PrivateKey_m M a h = (r, h') \<longrightarrow>
        extends h h' \<and> r = PrivateKey P (h ! a)) \<and>
     (\<forall>a private h r h'. a < length h \<longrightarrow> ExtendedKey_m M a private h = (r, h') \<longrightarrow>
        extends h h' \<and> r = ExtendedKey P (h ! a) private) \<and>
     (\<forall>x h r h'. fromExtendedKey_m M x h = (r, h') \<longrightarrow>
        extends h h' \<and>
        (case r of
           Inl e \<Rightarrow> fromExtendedKey P x = Inl e
         | Inr k \<Rightarrow> k < length h' \<and> fromExtendedKey P x = Inr (h' ! k))))"

section \<open>The specification's path hasher\<close>

text \<open>
  The hasher as the specification words it, on the UTF-8 octets of the two names:
  \<open>entity_hash = SHA256("ENTITY:" || entity)\<close>,
  \<open>entity_index = be_u32(entity_hash[0:4]) | 0x8000_0000\<close>,
  \<open>dept_hash = SHA256("DEPT:" || hex(entity_hash) || ":" || department)\<close>,
  \<open>dept_index = be_u32(dept_hash[0:4]) | 0x8000_0000\<close>, with 32-bit indices.
\<close>

definition ascii :: "string \<Rightarrow> byte list" where
  "ascii s = map of_char s"

definition hex_octets :: "byte list \<Rightarrow> byte list" where
  "hex_octets bs = map of_nat (bytes_hex bs)"

definition be_u32 :: "byte list \<Rightarrow> 32 word" where
  "be_u32 bs = word_rcat bs"

definition hash_path :: "(byte list \<Rightarrow> byte list) \<Rightarrow> byte list \<Rightarrow> byte list \<Rightarrow> 32 word \<times> 32 word" where
  "hash_path SHA256 entity department =
    (let entity_hash = SHA256 (ascii ''ENTITY:'' @ entity);
         entity_index = be_u32 (take 4 entity_hash) OR 0x80000000;
         dept_hash = SHA256 (ascii ''DEPT:'' @ hex_octets entity_hash @ ascii '':'' @ department);
         dept_index = be_u32 (take 4 dept_hash) OR 0x80000000
     in (entity_index, dept_index))"

text \<open>The strings \<^verbatim>\<open>str.encode()\<close> accepts: no surrogate code point.\<close>

definition encodable :: "pystr \<Rightarrow> bool" where
  "encodable s = list_all (\<lambda>c. c < 0x110000 \<and> \<not> (0xD800 \<le> c \<and> c \<le> 0xDFFF)) s"

text \<open>The octets of an encodable string.\<close>

definition utf8 :: "pystr \<Rightarrow> byte list" where
  "utf8 s = (case encode s of Inl e \<Rightarrow> [] | Inr bs \<Rightarrow> bs)"




section \<open>What the module relies on from its collaborators\<close>

text \<open>
  Importing the private export of a key gives the key back (the serialisation of BIP32
  holds every field of a private \<^verbatim>\<open>BIP32Key\<close>), and \<^verbatim>\<open>Account.from_key\<close> reads a
  hexadecimal string as the octets it spells.
\<close>

definition codec_round_trip :: "'k collab \<Rightarrow> bool" where
  "codec_round_trip L = (\<forall>k x. ExtendedKey L k True = Inr x \<longrightarrow> fromExtendedKey L x = Inr k)"

definition from_key_reads_hex :: "'k collab \<Rightarrow> bool" where
  "from_key_reads_hex L =
    (\<forall>secret. from_key_address L (KeyHex (bytes_hex secret)) = from_key_address L (KeyBytes secret))"

section \<open>A small instance of the collaborators\<close>

text \<open>
  An instance on which the operations can be run: a key is the text of its derivation
  path with a flag telling whether it has a private half. A public-only key has no
  hardened child, no private key and no private export, as in \<^verbatim>\<open>bip32utils\<close>.
\<close>

type_synonym toy_key = "bool \<times> pystr"

definition toy_sha256 :: "byte list \<Rightarrow> byte list" where
  "toy_sha256 bs = take 32 (rev bs @ replicate 32 0)"

definition toy_fromEntropy :: "byte list \<Rightarrow> exn + toy_key" where
  "toy_fromEntropy s = (if length s < 16 then Inl ValueError else Inr (True, py ''m''))"

definition toy_fromExtendedKey :: "pystr \<Rightarrow> exn + toy_key" where
  "toy_fromExtendedKey x =
    (if take 4 x = py ''xprv'' then Inr (True, drop 4 x)
     else if take 4 x = py ''xpub'' then Inr (False, drop 4 x)
     else Inl ValueError)"

definition toy_ChildKey :: "toy_key \<Rightarrow> int \<Rightarrow> exn + toy_key" where
  "toy_ChildKey k i =
    (if i < 0 \<or> 0x100000000 \<le> i then Inl (Raised ''struct.error'')
     else if \<not> fst k \<and> 0x80000000 \<le> i then
       Inl (Raised ''Cannot create a hardened child key using public child derivation'')
     else Inr (fst k, snd k @ py ''/'' @ str_int i))"

definition toy_PrivateKey :: "toy_key \<Rightarrow> exn + byte list" where
  "toy_PrivateKey k =
    (if fst k then Inr (map of_nat (snd k))
     else Inl (Raised ''Publicly derived deterministic keys have no private half''))"

definition toy_ExtendedKey :: "toy_key \<Rightarrow> bool \<Rightarrow> exn + pystr" where
  "toy_ExtendedKey k private =
    (if \<not> fst k \<and> private then
       Inl (Raised ''Cannot export an extended private key from a public-only deterministic key'')
     else Inr ((if private then py ''xprv'' else py ''xpub'') @ snd k))"

definition toy_from_key_address :: "keyarg \<Rightarrow> exn + pystr" where
  "toy_from_key_address x =
    (case x of
       KeyHex h \<Rightarrow> Inr (py ''0x'' @ h)
     | KeyBytes bs \<Rightarrow> Inr (py ''0x'' @ bytes_hex bs))"

definition toy :: "toy_key collab" where
  "toy =
    \<lparr>sha256 = toy_sha256,
     mnemonic_check = (\<lambda>m. m \<noteq> []),
     to_seed = (\<lambda>m. replicate 64 0),
     fromEntropy = toy_fromEntropy,
     fromExtendedKey = toy_fromExtendedKey,
     ChildKey = toy_ChildKey,
     PrivateKey = toy_PrivateKey,
     ExtendedKey = toy_ExtendedKey,
     from_key_address = toy_from_key_address\<rparr>"

definition toy_engine :: "toy_key TreasurySystem" where
  "toy_engine = \<lparr>seed = replicate 64 0, root_key = (True, py ''m'')\<rparr>"

text \<open>
  The key of this engine at the department path of entity "GroupA", department "Finance".
\<close>

definition toy_dept_key :: toy_key where
  "toy_dept_key = (True, py ''m/2147483692/2147483708/3245372783/3848498785'')"

text \<open>
  The methods of this instance on a store: a new key is added at the end of the store.
  A second set of methods differs in \<^verbatim>\<open>ChildKey\<close> alone, which overwrites the key it is
  called on and returns it.
\<close>

definition toy_methods :: "toy_key key_methods" where
  "toy_methods =
    \<lparr>fromExtendedKey_m =
       (\<lambda>x h. case toy_fromExtendedKey x of
                 Inl e \<Rightarrow> (Inl e, h)
               | Inr k \<Rightarrow> (Inr (length h), h @ [k])),
     ChildKey_m =
       (\<lambda>a i h. case toy_ChildKey (h ! a) i of
                   Inl e \<Rightarrow> (Inl e, h)
                 | Inr k \<Rightarrow> (Inr (length h), h @ [k])),
     PrivateKey_m = (\<lambda>a h. (toy_PrivateKey (h ! a), h)),
     ExtendedKey_m = (\<lambda>a private h. (toy_ExtendedKey (h ! a) private, h))\<rparr>"

definition in_place_methods :: "toy_key key_methods" where
  "in_place_methods =
    toy_methods
      \<lparr>ChildKey_m :=
         (\<lambda>a i h. case toy_ChildKey (h ! a) i of
                     Inl e \<Rightarrow> (Inl e, h)
                   | Inr k \<Rightarrow> (Inr a, h[a := k]))\<rparr>"

definition toy_world :: "toy_key world" where
  "toy_world = \<lparr>self_seed = replicate 64 0, self_root_key = 0, objects = [(True, py ''m'')]\<rparr>"

text \<open>
  A second hash for the same instance: the 32 octets of the input from offset 13 on. Two
  entity names that agree on their characters 6 to 9 and differ later get the same entity
  index from it, and digests that differ from octet 4 on.
\<close>

definition window_sha256 :: "byte list \<Rightarrow> byte list" where
  "window_sha256 bs = take 32 (drop 13 bs @ replicate 32 0)"

definition window_toy :: "toy_key collab" where
  "window_toy = toy\<lparr>sha256 := window_sha256\<rparr>"

section \<open>UTF-8 encoding of the hashed strings\<close>

lemma encode_append:
  "encode (a @ b) =
    (case encode a of
       Inl e \<Rightarrow> Inl e
     | Inr x \<Rightarrow> (case encode b of Inl e \<Rightarrow> Inl e | Inr y \<Rightarrow> Inr (x @ y)))"
  by (induction a) (auto split: sum.splits)

lemma encode_below_128: "list_all (\<lambda>c. c < 128) s \<Longrightarrow> encode s = Inr (map of_nat s)"
  by (induction s) (simp_all add: utf8_char_def)

lemma utf8_char_cases:
  "utf8_char c = Inl e \<Longrightarrow> e = UnicodeEncodeError"
  by (simp add: utf8_char_def split: if_splits)

lemma utf8_char_ok_iff:
  "(\<exists>bs. utf8_char c = Inr bs) \<longleftrightarrow> c < 0x110000 \<and> \<not> (0xD800 \<le> c \<and> c \<le> 0xDFFF)"
  by (simp add: utf8_char_def)

lemma utf8_char_ok:
  "c < 0x110000 \<Longrightarrow> \<not> (0xD800 \<le> c \<and> c \<le> 0xDFFF) \<Longrightarrow> \<exists>bs. utf8_char c = Inr bs"
  using utf8_char_ok_iff [of c] by blast

lemma utf8_char_fails:
  "\<not> (c < 0x110000 \<and> \<not> (0xD800 \<le> c \<and> c \<le> 0xDFFF)) \<Longrightarrow> utf8_char c = Inl UnicodeEncodeError"
proof -
  assume "\<not> (c < 0x110000 \<and> \<not> (0xD800 \<le> c \<and> c \<le> 0xDFFF))"
  then have "\<not> (\<exists>bs. utf8_char c = Inr bs)" using utf8_char_ok_iff [of c] by blast
  then obtain e where "utf8_char c = Inl e" by (cases "utf8_char c") auto
  then show ?thesis using utf8_char_cases by blast
qed

lemma encode_cases: "encode s = Inl e \<Longrightarrow> e = UnicodeEncodeError"
proof (induction s)
  case Nil
  then show ?case by simp
next
  case (Cons c s)
  then show ?case
    by (cases "utf8_char c"; cases "encode s") (simp_all add: utf8_char_cases)
qed

lemma encode_ok_iff: "(\<exists>bs. encode s = Inr bs) \<longleftrightarrow> encodable s"
proof (induction s)
  case Nil
  then show ?case by (simp add: encodable_def)
next
  case (Cons c s)
  have enc: "encodable (c # s) \<longleftrightarrow> (\<exists>bs. utf8_char c = Inr bs) \<and> encodable s"
    by (simp add: encodable_def utf8_char_ok_iff)
  show ?case unfolding enc Cons.IH [symmetric]
    by (cases "utf8_char c"; cases "encode s") simp_all
qed

lemma encode_encodable: "encode s = (if encodable s then Inr (utf8 s) else Inl UnicodeEncodeError)"
proof (cases "encode s")
  case (Inl e)
  then have "e = UnicodeEncodeError" by (rule encode_cases)
  moreover have "\<not> encodable s" using Inl encode_ok_iff [of s] by simp
  ultimately show ?thesis using Inl by simp
next
  case (Inr bs)
  then have "encodable s" using encode_ok_iff [of s] by blast
  then show ?thesis using Inr by (simp add: utf8_def)
qed

lemma hex_digit_below_128: "d < 16 \<Longrightarrow> hex_digit d < 128"
  by (simp add: hex_digit_def)

lemma bytes_hex_below_128: "list_all (\<lambda>c. c < 128) (bytes_hex bs)"
proof (induction bs)
  case Nil
  then show ?case by (simp add: bytes_hex_def)
next
  case (Cons b bs)
  have "unat b < 256" using unsigned_less [of b, where ?'a = nat] by simp
  then have "unat b div 16 < 16" by simp
  then have "hex_digit (unat b div 16) < 128" "hex_digit (unat b mod 16) < 128"
    by (simp_all add: hex_digit_below_128)
  with Cons show ?case by (simp add: bytes_hex_def)
qed

lemma encode_bytes_hex: "encode (bytes_hex bs) = Inr (hex_octets bs)"
  by (simp add: encode_below_128 bytes_hex_below_128 hex_octets_def)

lemma encode_entity_tag: "encode (py ''ENTITY:'') = Inr (ascii ''ENTITY:'')"
  by (simp add: py_def ascii_def utf8_char_def)

lemma encode_dept_tag: "encode (py ''DEPT:'') = Inr (ascii ''DEPT:'')"
  by (simp add: py_def ascii_def utf8_char_def)

lemma encode_colon: "encode (py '':'') = Inr (ascii '':'')"
  by (simp add: py_def ascii_def utf8_char_def)

lemma encode_entity_input:
  "encode (entity_input entity) =
    (if encodable entity then Inr (ascii ''ENTITY:'' @ utf8 entity) else Inl UnicodeEncodeError)"
  unfolding entity_input_def encode_append encode_entity_tag
  by (simp add: encode_encodable)

lemma encode_dept_input:
  "encode (dept_input h department) =
    (if encodable department then Inr (ascii ''DEPT:'' @ hex_octets h @ ascii '':'' @ utf8 department)
     else Inl UnicodeEncodeError)"
  unfolding dept_input_def encode_append encode_dept_tag encode_colon encode_bytes_hex
  by (simp add: encode_encodable)

section \<open>Big-endian indices with the hardened bit\<close>

lemma from_bytes_big_snoc: "from_bytes_big (bs @ [b]) = from_bytes_big bs * 256 + uint b"
  by (simp add: from_bytes_big_def)

lemma from_bytes_big_horner: "from_bytes_big bs = horner_sum uint 256 (rev bs)"
  by (induction bs rule: rev_induct) (simp_all add: from_bytes_big_snoc from_bytes_big_def)

lemma from_bytes_big_nonneg: "0 \<le> from_bytes_big bs"
  by (induction bs rule: rev_induct) (simp_all add: from_bytes_big_snoc from_bytes_big_def)

lemma from_bytes_big_less: "from_bytes_big bs < 256 ^ length bs"
proof (induction bs rule: rev_induct)
  case Nil
  then show ?case by (simp add: from_bytes_big_def)
next
  case (snoc b bs)
  have "uint b < 256" using uint_bounded [of b] by simp
  with snoc show ?case by (simp add: from_bytes_big_snoc)
qed

lemma from_bytes_big_take4: "from_bytes_big (take 4 bs) < 2 ^ 32"
proof -
  have "from_bytes_big (take 4 bs) < 256 ^ length (take 4 bs)" by (rule from_bytes_big_less)
  also have "\<dots> \<le> (256::int) ^ 4" by (rule power_increasing) simp_all
  finally show ?thesis by simp
qed

lemma uint_be_u32_take4: "uint (be_u32 (take 4 bs)) = from_bytes_big (take 4 bs)"
proof -
  have "uint (be_u32 (take 4 bs)) = from_bytes_big (take 4 bs) mod 2 ^ 32"
    by (simp add: be_u32_def word_rcat_def from_bytes_big_horner uint_word_of_int)
  with from_bytes_big_take4 [of bs] from_bytes_big_nonneg [of "take 4 bs"] show ?thesis by simp
qed

lemma hardened_index_word:
  "uint (be_u32 (take 4 bs) OR 0x80000000) = from_bytes_big (take 4 bs) OR 0x80000000"
  by (simp add: uint_or uint_be_u32_take4)



section \<open>The path hasher\<close>

text \<open>
  C4, as the code has it. On every pair of strings that \<^verbatim>\<open>str.encode()\<close> accepts
  (no surrogate code point), \<^verbatim>\<open>_hierarchical_hash\<close> returns the two indices of the
  specification's hasher: \<open>be_u32(SHA256("ENTITY:" || entity)[0:4]) | 0x80000000\<close> and
  \<open>be_u32(SHA256("DEPT:" || hex(entity_hash) || ":" || department)[0:4]) | 0x80000000\<close>,
  computed on the UTF-8 octets of the names. On every other pair it raises
  \<^verbatim>\<open>UnicodeEncodeError\<close>. The result is a function of the two strings and of the hash
  function alone, so two calls with the same arguments give the same result.
\<close>

theorem hash_path_refinement:
  "hierarchical_hash L entity department =
    (if encodable entity \<and> encodable department then
       Inr (uint (fst (hash_path (sha256 L) (utf8 entity) (utf8 department))),
            uint (snd (hash_path (sha256 L) (utf8 entity) (utf8 department))))
     else Inl UnicodeEncodeError)"
  by (simp add: hierarchical_hash_def hash_path_def encode_entity_input encode_dept_input
      hardened_index_word Let_def)

text \<open>
  The engine at entity "GroupA" and department "Finance", on the small instance of the
  collaborators.
\<close>

lemma toy_hash_GroupA_Finance:
  "hierarchical_hash toy (py ''GroupA'') (py ''Finance'') = Inr (3245372783, 3848498785)"
  by code_simp

theorem hash_path_refinement_witness:
  "encodable (py ''GroupA'') \<and> encodable (py ''Finance'') \<and>
   hierarchical_hash toy (py ''GroupA'') (py ''Finance'') = Inr (3245372783, 3848498785) \<and>
   uint (fst (hash_path toy_sha256 (utf8 (py ''GroupA'')) (utf8 (py ''Finance'')))) = 3245372783 \<and>
   uint (snd (hash_path toy_sha256 (utf8 (py ''GroupA'')) (utf8 (py ''Finance'')))) = 3848498785"
proof -
  have e: "encodable (py ''GroupA'')" "encodable (py ''Finance'')"
    by (simp_all add: encodable_def py_def)
  have s: "sha256 toy = toy_sha256" by (simp add: toy_def)
  from hash_path_refinement [of toy "py ''GroupA''" "py ''Finance''"] e toy_hash_GroupA_Finance s
  show ?thesis by simp
qed

text \<open>
  C4 as stated (a value for all string inputs, no error condition) fails on a string that
  holds a lone surrogate: with the one-character entity name U+D800 and the department
  "Finance", \<^verbatim>\<open>_hierarchical_hash\<close> raises
  \<^verbatim>\<open>UnicodeEncodeError\<close> at the first \<^verbatim>\<open>.encode()\<close>.
\<close>

theorem hash_path_surrogate_counterexample:
  "hierarchical_hash toy [0xD800] (py ''Finance'') = Inl UnicodeEncodeError"
  by (simp add: hierarchical_hash_def encode_entity_input encodable_def)

section \<open>The two department exports\<close>

text \<open>
  C5. For every entity and department, \<^verbatim>\<open>get_audit_xpub\<close> returns exactly what
  \<^verbatim>\<open>get_dept_xprv\<close> returns: the same value when both return, the same exception
  otherwise.
\<close>

theorem audit_export_is_private_export:
  "get_audit_xpub L self entity department = get_dept_xprv L self entity department"
  by (simp add: get_audit_xpub_def get_dept_xprv_def)

section \<open>The department hash input\<close>

lemma hex_digit_inject: "a < 16 \<Longrightarrow> b < 16 \<Longrightarrow> hex_digit a = hex_digit b \<Longrightarrow> a = b"
  by (simp add: hex_digit_def split: if_splits)

lemma byte_hex_pair_inject:
  fixes a b :: byte
  assumes "hex_digit (unat a div 16) = hex_digit (unat b div 16)"
      and "hex_digit (unat a mod 16) = hex_digit (unat b mod 16)"
  shows "a = b"
proof -
  have la: "unat a < 256" using unsigned_less [of a, where ?'a = nat] by simp
  have lb: "unat b < 256" using unsigned_less [of b, where ?'a = nat] by simp
  have da: "unat a div 16 < 16" and db: "unat b div 16 < 16" using la lb by simp_all
  have d: "unat a div 16 = unat b div 16"
    using da db assms(1) by (rule hex_digit_inject)
  have m: "unat a mod 16 = unat b mod 16"
    by (rule hex_digit_inject [OF _ _ assms(2)]) simp_all
  have "unat a = unat a div 16 * 16 + unat a mod 16" by simp
  also have "\<dots> = unat b div 16 * 16 + unat b mod 16" by (simp only: d m)
  also have "\<dots> = unat b" by simp
  finally show ?thesis by (rule unsigned_word_eqI)
qed

lemma bytes_hex_Cons:
  "bytes_hex (b # bs) = hex_digit (unat b div 16) # hex_digit (unat b mod 16) # bytes_hex bs"
  by (simp add: bytes_hex_def)

lemma bytes_hex_Nil: "bytes_hex [] = []"
  by (simp add: bytes_hex_def)

lemma bytes_hex_inject: "bytes_hex xs = bytes_hex ys \<Longrightarrow> xs = ys"
proof (induction xs arbitrary: ys)
  case Nil
  then show ?case by (cases ys) (simp_all add: bytes_hex_Nil bytes_hex_Cons)
next
  case (Cons x xs)
  then obtain y ys' where ys: "ys = y # ys'"
    by (cases ys) (simp_all add: bytes_hex_Nil bytes_hex_Cons)
  with Cons.prems have "x = y" "bytes_hex xs = bytes_hex ys'"
    by (simp_all add: bytes_hex_Cons byte_hex_pair_inject)
  with Cons.IH ys show ?case by simp
qed

lemma dept_input_inject: "dept_input h1 department = dept_input h2 department \<Longrightarrow> h1 = h2"
  by (simp add: dept_input_def bytes_hex_inject)

lemma hex_octets_inject: "hex_octets xs = hex_octets ys \<Longrightarrow> xs = ys"
proof -
  assume eq: "hex_octets xs = hex_octets ys"
  have inj: "inj_on (of_nat :: nat \<Rightarrow> byte) {..<128}"
  proof (rule inj_onI)
    fix a b :: nat
    assume a: "a \<in> {..<128}" and b: "b \<in> {..<128}" and e: "(of_nat a :: byte) = of_nat b"
    from e have "unat (of_nat a :: byte) = unat (of_nat b :: byte)" by simp
    with a b show "a = b" by (simp add: unat_of_nat)
  qed
  have sx: "set (bytes_hex xs) \<subseteq> {..<128}" and sy: "set (bytes_hex ys) \<subseteq> {..<128}"
    using bytes_hex_below_128 [of xs] bytes_hex_below_128 [of ys] by (auto simp: list_all_iff)
  have "inj_on (of_nat :: nat \<Rightarrow> byte) (set (bytes_hex xs) \<union> set (bytes_hex ys))"
    using inj sx sy by (blast intro: inj_on_subset)
  from inj_on_map_eq_map [OF this] eq have "bytes_hex xs = bytes_hex ys"
    by (simp add: hex_octets_def)
  then show ?thesis by (rule bytes_hex_inject)
qed

lemma encoded_dept_input_inject:
  assumes "encodable department"
      and "encode (dept_input h1 department) = encode (dept_input h2 department)"
  shows "h1 = h2"
  using assms by (simp add: encode_dept_input hex_octets_inject)

lemma encodable_entity_input: "encodable (entity_input entity) \<longleftrightarrow> encodable entity"
proof -
  have "encodable (entity_input entity) \<longleftrightarrow> (\<exists>bs. encode (entity_input entity) = Inr bs)"
    by (simp add: encode_ok_iff)
  also have "\<dots> \<longleftrightarrow> encodable entity"
    by (simp add: encode_entity_input)
  finally show ?thesis .
qed

lemma encodable_dept_input: "encodable (dept_input h department) \<longleftrightarrow> encodable department"
proof -
  have "encodable (dept_input h department) \<longleftrightarrow> (\<exists>bs. encode (dept_input h department) = Inr bs)"
    by (simp add: encode_ok_iff)
  also have "\<dots> \<longleftrightarrow> encodable department"
    by (simp add: encode_dept_input)
  finally show ?thesis .
qed

lemma hierarchical_hash_encodable:
  assumes "encodable entity" and "encodable department"
  shows "hierarchical_hash L entity department =
    Inr (from_bytes_big (take 4 (sha256 L (utf8 (entity_input entity)))) OR 0x80000000,
         from_bytes_big (take 4 (sha256 L (utf8
           (dept_input (sha256 L (utf8 (entity_input entity))) department)))) OR 0x80000000)"
proof -
  have e: "encode (entity_input entity) = Inr (utf8 (entity_input entity))"
    using assms(1) by (simp add: encode_encodable encodable_entity_input)
  have d: "encode (dept_input h department) = Inr (utf8 (dept_input h department))" for h
    using assms(2) by (simp add: encode_encodable encodable_dept_input)
  show ?thesis
    by (simp add: hierarchical_hash_def e d Let_def)
qed

lemma utf8_dept_input_inject:
  assumes "encodable department"
      and "utf8 (dept_input h1 department) = utf8 (dept_input h2 department)"
  shows "h1 = h2"
proof -
  have "encode (dept_input h department) = Inr (utf8 (dept_input h department))" for h
    using assms(1) by (simp add: encode_encodable encodable_dept_input)
  with assms(2) have "encode (dept_input h1 department) = encode (dept_input h2 department)"
    by simp
  with assms(1) show ?thesis by (rule encoded_dept_input_inject)
qed

text \<open>
  C7. Let \<open>H1\<close> and \<open>H2\<close> be the SHA-256 entity hashes of two entity names, and let them
  differ. Then for every department name the department hash inputs
  \<^verbatim>\<open>f"DEPT:{entity_hash.hex()}:{department}"\<close> differ as strings, and for every department
  name that can be encoded they differ as the octets that are hashed, and
  \<^verbatim>\<open>_hierarchical_hash\<close> returns for each entity the index of its entity hash together
  with the index of the SHA-256 hash of these octets: the department index is computed from
  the whole entity hash. Nothing is asked of the two 4-byte entity indices: the witness has
  two entities with the same entity index and different department indices.
\<close>

theorem dept_layer_depends_on_full_entity_hash:
  assumes "encodable E1" and "encodable E2"
      and "H1 = sha256 L (utf8 (entity_input E1))"
      and "H2 = sha256 L (utf8 (entity_input E2))"
      and "H1 \<noteq> H2"
  shows "dept_input H1 D \<noteq> dept_input H2 D \<and>
    (encodable D \<longrightarrow>
       utf8 (dept_input H1 D) \<noteq> utf8 (dept_input H2 D) \<and>
       hierarchical_hash L E1 D =
         Inr (from_bytes_big (take 4 H1) OR 0x80000000,
              from_bytes_big (take 4 (sha256 L (utf8 (dept_input H1 D)))) OR 0x80000000) \<and>
       hierarchical_hash L E2 D =
         Inr (from_bytes_big (take 4 H2) OR 0x80000000,
              from_bytes_big (take 4 (sha256 L (utf8 (dept_input H2 D)))) OR 0x80000000))"
proof (intro conjI impI)
  show "dept_input H1 D \<noteq> dept_input H2 D"
    using assms(5) dept_input_inject by blast
next
  assume "encodable D"
  then show "utf8 (dept_input H1 D) \<noteq> utf8 (dept_input H2 D)"
    using assms(5) utf8_dept_input_inject by blast
next
  assume "encodable D"
  with assms(1) show "hierarchical_hash L E1 D =
         Inr (from_bytes_big (take 4 H1) OR 0x80000000,
              from_bytes_big (take 4 (sha256 L (utf8 (dept_input H1 D)))) OR 0x80000000)"
    unfolding assms(3) by (rule hierarchical_hash_encodable)
next
  assume "encodable D"
  with assms(2) show "hierarchical_hash L E2 D =
         Inr (from_bytes_big (take 4 H2) OR 0x80000000,
              from_bytes_big (take 4 (sha256 L (utf8 (dept_input H2 D)))) OR 0x80000000)"
    unfolding assms(4) by (rule hierarchical_hash_encodable)
qed

lemma window_hash_1:
  "hierarchical_hash window_toy (py ''GroupAlpha-1'') (py ''Finance'') = Inr (3966789729, 2992911153)"
  by code_simp

lemma window_hash_2:
  "hierarchical_hash window_toy (py ''GroupAlpha-2'') (py ''Finance'') = Inr (3966789729, 2992911154)"
  by code_simp

theorem dept_layer_depends_on_full_entity_hash_witness:
  "encodable (py ''GroupAlpha-1'') \<and> encodable (py ''GroupAlpha-2'') \<and>
   encodable (py ''Finance'') \<and>
   sha256 window_toy (utf8 (entity_input (py ''GroupAlpha-1''))) \<noteq>
     sha256 window_toy (utf8 (entity_input (py ''GroupAlpha-2''))) \<and>
   hierarchical_hash window_toy (py ''GroupAlpha-1'') (py ''Finance'') = Inr (3966789729, 2992911153) \<and>
   hierarchical_hash window_toy (py ''GroupAlpha-2'') (py ''Finance'') = Inr (3966789729, 2992911154) \<and>
   dept_input (sha256 window_toy (utf8 (entity_input (py ''GroupAlpha-1'')))) (py ''Finance'') \<noteq>
     dept_input (sha256 window_toy (utf8 (entity_input (py ''GroupAlpha-2'')))) (py ''Finance'') \<and>
   utf8 (dept_input (sha256 window_toy (utf8 (entity_input (py ''GroupAlpha-1'')))) (py ''Finance'')) \<noteq>
     utf8 (dept_input (sha256 window_toy (utf8 (entity_input (py ''GroupAlpha-2'')))) (py ''Finance''))"
proof -
  have e1: "encodable (py ''GroupAlpha-1'')" by (simp add: encodable_def py_def)
  have e2: "encodable (py ''GroupAlpha-2'')" by (simp add: encodable_def py_def)
  have d: "encodable (py ''Finance'')" by (simp add: encodable_def py_def)
  have ne: "sha256 window_toy (utf8 (entity_input (py ''GroupAlpha-1''))) \<noteq>
     sha256 window_toy (utf8 (entity_input (py ''GroupAlpha-2'')))"
    by code_simp
  from dept_layer_depends_on_full_entity_hash [OF e1 e2 refl refl ne, of "py ''Finance''"] d
  have "dept_input (sha256 window_toy (utf8 (entity_input (py ''GroupAlpha-1'')))) (py ''Finance'') \<noteq>
     dept_input (sha256 window_toy (utf8 (entity_input (py ''GroupAlpha-2'')))) (py ''Finance'')"
    and "utf8 (dept_input (sha256 window_toy (utf8 (entity_input (py ''GroupAlpha-1'')))) (py ''Finance'')) \<noteq>
     utf8 (dept_input (sha256 window_toy (utf8 (entity_input (py ''GroupAlpha-2'')))) (py ''Finance''))"
    by simp_all
  with e1 e2 d ne window_hash_1 window_hash_2 show ?thesis by simp
qed

section \<open>Decimal and hexadecimal output\<close>




lemma digits_small: "n < 10 \<Longrightarrow> digits n = [48 + n]"
  by (subst digits.simps) simp

lemma digits_large: "\<not> n < 10 \<Longrightarrow> digits n = digits (n div 10) @ [48 + n mod 10]"
  by (subst digits.simps) simp




section \<open>The steps of generate_account\<close>

lemma generate_account_Inr:
  assumes "generate_account L self entity department account_idx = Inr acc"
  shows "\<exists>e_idx d_idx key secret.
    hierarchical_hash L entity department = Inr (e_idx, d_idx) \<and>
    derive_key L self [0x8000002C, 0x8000003C, e_idx, d_idx, account_idx] = Inr key \<and>
    PrivateKey L key = Inr secret \<and>
    from_key_address L (KeyHex (bytes_hex secret)) = Inr (address acc) \<and>
    path acc = py ''m/44'/60'/'' @ str_int e_idx @ py '''/'' @ str_int d_idx @ py '''/''
                 @ str_int account_idx \<and>
    private_key acc = bytes_hex secret"
proof (cases "hierarchical_hash L entity department")
  case (Inl e)
  with assms show ?thesis by (simp add: generate_account_def)
next
  case (Inr idx)
  obtain e_idx d_idx where idx: "idx = (e_idx, d_idx)" by (cases idx)
  show ?thesis
  proof (cases "derive_key L self [0x8000002C, 0x8000003C, e_idx, d_idx, account_idx]")
    case (Inl e)
    with assms Inr idx show ?thesis by (simp add: generate_account_def)
  next
    case key: (Inr key)
    show ?thesis
    proof (cases "PrivateKey L key")
      case (Inl e)
      with assms Inr idx key show ?thesis by (simp add: generate_account_def)
    next
      case secret: (Inr secret)
      show ?thesis
      proof (cases "from_key_address L (KeyHex (bytes_hex secret))")
        case (Inl e)
        with assms Inr idx key secret show ?thesis by (simp add: generate_account_def)
      next
        case a: (Inr a)
        with assms Inr idx key secret have
          "acc = \<lparr>path = py ''m/44'/60'/'' @ str_int e_idx @ py '''/'' @ str_int d_idx
                         @ py '''/'' @ str_int account_idx,
                  private_key = bytes_hex secret, address = a\<rparr>"
          by (simp add: generate_account_def)
        with Inr idx key secret a show ?thesis by simp
      qed
    qed
  qed
qed

lemma derive_loop_snoc:
  "derive_loop L k (xs @ [i]) =
    (case derive_loop L k xs of Inl e \<Rightarrow> Inl e | Inr k' \<Rightarrow> ChildKey L k' i)"
proof (induction xs arbitrary: k)
  case Nil
  show ?case by (cases "ChildKey L k i") simp_all
next
  case (Cons x xs)
  then show ?case by (cases "ChildKey L k x") simp_all
qed

lemma derive_key_account:
  "derive_key L self [a, b, c, d, i] =
    (case derive_key L self [a, b, c, d] of Inl e \<Rightarrow> Inl e | Inr k \<Rightarrow> ChildKey L k i)"
  using derive_loop_snoc [of L "root_key self" "[a, b, c, d]" i] by (simp add: derive_key_def)

lemma generate_account_steps:
  assumes "hierarchical_hash L entity department = Inr (e_idx, d_idx)"
      and "derive_key L self [0x8000002C, 0x8000003C, e_idx, d_idx] = Inr dept_key"
      and "ChildKey L dept_key account_idx = Inr key"
      and "PrivateKey L key = Inr secret"
      and "from_key_address L (KeyHex (bytes_hex secret)) = Inr a"
  shows "generate_account L self entity department account_idx =
    Inr \<lparr>path = py ''m/44'/60'/'' @ str_int e_idx @ py '''/'' @ str_int d_idx @ py '''/''
                   @ str_int account_idx,
         private_key = bytes_hex secret,
         address = a\<rparr>"
proof -
  have "derive_key L self [0x8000002C, 0x8000003C, e_idx, d_idx, account_idx] = Inr key"
    using assms(2,3) by (simp add: derive_key_account)
  with assms(1,4,5) show ?thesis by (simp add: generate_account_def)
qed

section \<open>Running the small instance\<close>

lemma toy_fields:
  "sha256 toy = toy_sha256"
  "fromExtendedKey toy = toy_fromExtendedKey"
  "ChildKey toy = toy_ChildKey"
  "PrivateKey toy = toy_PrivateKey"
  "ExtendedKey toy = toy_ExtendedKey"
  "from_key_address toy = toy_from_key_address"
  by (simp_all add: toy_def)

lemma toy_derive_dept_key:
  "derive_key toy toy_engine [0x8000002C, 0x8000003C, 3245372783, 3848498785] = Inr toy_dept_key"
  by (simp add: derive_key_def toy_engine_def toy_fields toy_ChildKey_def toy_dept_key_def
      py_def str_int_def digits_small digits_large)

lemma toy_ChildKey_private:
  "0 \<le> i \<Longrightarrow> i < 0x100000000 \<Longrightarrow>
   ChildKey toy (True, p) i = Inr (True, p @ py ''/'' @ str_int i)"
  by (simp add: toy_fields toy_ChildKey_def)

lemma toy_ChildKey_public:
  "0 \<le> i \<Longrightarrow> i < 0x80000000 \<Longrightarrow>
   ChildKey toy (False, p) i = Inr (False, p @ py ''/'' @ str_int i)"
  by (simp add: toy_fields toy_ChildKey_def)

lemma toy_PrivateKey_private: "PrivateKey toy (True, p) = Inr (map of_nat p)"
  by (simp add: toy_fields toy_PrivateKey_def)

lemma toy_PrivateKey_public:
  "PrivateKey toy (False, p) = Inl (Raised ''Publicly derived deterministic keys have no private half'')"
  by (simp add: toy_fields toy_PrivateKey_def)

lemma toy_from_key_hex: "from_key_address toy (KeyHex h) = Inr (py ''0x'' @ h)"
  by (simp add: toy_fields toy_from_key_address_def)

lemma toy_from_key_bytes: "from_key_address toy (KeyBytes bs) = Inr (py ''0x'' @ bytes_hex bs)"
  by (simp add: toy_fields toy_from_key_address_def)

lemma toy_generate_account:
  assumes "0 \<le> i" "i < 0x100000000"
  shows "generate_account toy toy_engine (py ''GroupA'') (py ''Finance'') i =
    Inr \<lparr>path = py ''m/44'/60'/'' @ str_int 3245372783 @ py '''/'' @ str_int 3848498785 @ py '''/''
                   @ str_int i,
         private_key = bytes_hex (map of_nat (snd toy_dept_key @ py ''/'' @ str_int i)),
         address = py ''0x'' @ bytes_hex (map of_nat (snd toy_dept_key @ py ''/'' @ str_int i))\<rparr>"
proof -
  have k: "ChildKey toy toy_dept_key i = Inr (True, snd toy_dept_key @ py ''/'' @ str_int i)"
    using assms by (simp add: toy_dept_key_def toy_ChildKey_private)
  show ?thesis
    by (rule generate_account_steps [OF toy_hash_GroupA_Finance toy_derive_dept_key k
          toy_PrivateKey_private toy_from_key_hex])
qed

section \<open>Accounts\<close>



text \<open>
  C6, as the code has it. \<^verbatim>\<open>generate_account\<close> has no range check on the account index: for
  every index, those from \<open>2^31\<close> on included, it passes the index to \<^verbatim>\<open>ChildKey\<close> as the
  fifth segment and returns path, private key and address whenever the hash, the
  derivation, \<^verbatim>\<open>PrivateKey()\<close> and \<^verbatim>\<open>Account.from_key\<close> return.
\<close>

theorem generate_account_no_index_check:
  assumes "hierarchical_hash L entity department = Inr (e_idx, d_idx)"
      and "derive_key L self [0x8000002C, 0x8000003C, e_idx, d_idx] = Inr dept_key"
      and "ChildKey L dept_key account_idx = Inr key"
      and "PrivateKey L key = Inr secret"
      and "from_key_address L (KeyHex (bytes_hex secret)) = Inr a"
  shows "generate_account L self entity department account_idx =
    Inr \<lparr>path = py ''m/44'/60'/'' @ str_int e_idx @ py '''/'' @ str_int d_idx @ py '''/''
                   @ str_int account_idx,
         private_key = bytes_hex secret,
         address = a\<rparr>"
  using assms by (rule generate_account_steps)

theorem generate_account_no_index_check_witness:
  "(2::int) ^ 31 \<le> 0x80000000 \<and>
   ChildKey toy toy_dept_key 0x80000000 = Inr (True, snd toy_dept_key @ py ''/2147483648'') \<and>
   generate_account toy toy_engine (py ''GroupA'') (py ''Finance'') 0x80000000 =
     Inr \<lparr>path = py ''m/44'/60'/3245372783'/3848498785'/2147483648'',
          private_key = bytes_hex (map of_nat (snd toy_dept_key @ py ''/2147483648'')),
          address = py ''0x'' @ bytes_hex (map of_nat (snd toy_dept_key @ py ''/2147483648''))\<rparr>"
proof -
  have k: "ChildKey toy toy_dept_key 0x80000000 = Inr (True, snd toy_dept_key @ py ''/2147483648'')"
    by (simp add: toy_fields toy_ChildKey_def toy_dept_key_def py_def str_int_def digits_small digits_large)
  have p: "py ''m/44'/60'/'' @ str_int 3245372783 @ py '''/'' @ str_int 3848498785 @ py '''/''
      @ str_int 0x80000000 = py ''m/44'/60'/3245372783'/3848498785'/2147483648''"
    by (simp add: py_def str_int_def digits_small digits_large)
  from generate_account_no_index_check [OF toy_hash_GroupA_Finance toy_derive_dept_key k
      toy_PrivateKey_private toy_from_key_hex]
  show ?thesis using k p by simp
qed

text \<open>
  C6 as stated (every account index from \<open>2^31\<close> on is rejected) fails: at index
  \<open>0x80000000\<close> the engine derives the hardened child of the department key and returns an
  account.
\<close>

theorem generate_account_hardened_index_counterexample:
  "\<not> (\<forall>account_idx \<ge> 2 ^ 31.
        isl (generate_account toy toy_engine (py ''GroupA'') (py ''Finance'') account_idx))"
proof
  assume "\<forall>account_idx \<ge> 2 ^ 31.
    isl (generate_account toy toy_engine (py ''GroupA'') (py ''Finance'') account_idx)"
  then have "isl (generate_account toy toy_engine (py ''GroupA'') (py ''Finance'') 0x80000000)"
    by simp
  then show False by (simp add: toy_generate_account)
qed

section \<open>Addresses from an extended key\<close>

lemma Inr_projr: "\<not> isl x \<Longrightarrow> x = Inr (projr x)"
  by (cases x) simp_all

lemma addresses_loop_iff:
  "addresses_loop L k idxs = Inr addrs \<longleftrightarrow>
     length addrs = length idxs \<and>
     (\<forall>j < length idxs. child_address L k (idxs ! j) = Inr (addrs ! j))"
proof (induction idxs arbitrary: addrs)
  case Nil
  then show ?case by auto
next
  case (Cons i rest)
  show ?case
  proof (cases "child_address L k i")
    case (Inl e)
    then show ?thesis by auto
  next
    case a: (Inr a)
    show ?thesis
    proof (cases "addresses_loop L k rest")
      case (Inl e)
      have "\<not> (length (tl addrs) = length rest \<and>
          (\<forall>j < length rest. child_address L k (rest ! j) = Inr (tl addrs ! j)))"
        using Cons.IH [of "tl addrs"] Inl by simp
      then have "\<not> (length addrs = length (i # rest) \<and>
          (\<forall>j < length (i # rest). child_address L k ((i # rest) ! j) = Inr (addrs ! j)))"
        by (cases addrs) (auto simp: nth_Cons')
      with a Inl show ?thesis by simp
    next
      case others: (Inr others)
      then have ih: "length others = length rest"
        "\<forall>j < length rest. child_address L k (rest ! j) = Inr (others ! j)"
        using Cons.IH [of others] by simp_all
      show ?thesis
      proof
        assume "addresses_loop L k (i # rest) = Inr addrs"
        with a others have "addrs = a # others" by simp
        with a ih show "length addrs = length (i # rest) \<and>
          (\<forall>j < length (i # rest). child_address L k ((i # rest) ! j) = Inr (addrs ! j))"
          by (auto simp: nth_Cons split: nat.splits)
      next
        assume r: "length addrs = length (i # rest) \<and>
          (\<forall>j < length (i # rest). child_address L k ((i # rest) ! j) = Inr (addrs ! j))"
        then obtain b bs where ab: "addrs = b # bs" by (cases addrs) auto
        from r ab have "child_address L k i = Inr b" by auto
        with a have "b = a" by simp
        from r ab have "length bs = length rest"
          "\<forall>j < length rest. child_address L k (rest ! j) = Inr (bs ! j)"
          by auto
        then have "addresses_loop L k rest = Inr bs" using Cons.IH [of bs] by simp
        with others have "bs = others" by simp
        with a others ab \<open>b = a\<close> show "addresses_loop L k (i # rest) = Inr addrs" by simp
      qed
    qed
  qed
qed

lemma length_py_range: "length (py_range n) = nat n"
  by (simp add: py_range_def)

lemma nth_py_range: "i < nat n \<Longrightarrow> py_range n ! i = int i"
  by (simp add: py_range_def)

lemma derive_addresses_iff:
  assumes "fromExtendedKey L xpub = Inr audit_key"
  shows "derive_addresses_from_xpub L xpub n = Inr addrs \<longleftrightarrow>
     length addrs = nat n \<and>
     (\<forall>i < nat n. child_address L audit_key (int i) = Inr (addrs ! i))"
  using assms
  by (simp add: derive_addresses_from_xpub_def addresses_loop_iff length_py_range nth_py_range)

lemma py_range_pos: "0 < count \<Longrightarrow> py_range count = 0 # map int [1..<nat count]"
  by (simp add: py_range_def upt_conv_Cons)

lemma toy_fromExtendedKey_xprv: "fromExtendedKey toy (py ''xprv'' @ p) = Inr (True, p)"
  by (simp add: toy_fields toy_fromExtendedKey_def py_def)

lemma toy_fromExtendedKey_xpub: "fromExtendedKey toy (py ''xpub'' @ p) = Inr (False, p)"
  by (simp add: toy_fields toy_fromExtendedKey_def py_def)

lemma toy_child_address_private:
  "0 \<le> i \<Longrightarrow> i < 0x100000000 \<Longrightarrow>
   child_address toy (True, p) i = Inr (py ''0x'' @ bytes_hex (map of_nat (p @ py ''/'' @ str_int i)))"
  by (simp add: child_address_def toy_ChildKey_private toy_PrivateKey_private toy_from_key_bytes)

lemma toy_child_address_public:
  "0 \<le> i \<Longrightarrow> i < 0x80000000 \<Longrightarrow>
   child_address toy (False, p) i =
     Inl (Raised ''Publicly derived deterministic keys have no private half'')"
  by (simp add: child_address_def toy_ChildKey_public toy_PrivateKey_public)

lemma toy_get_audit_xpub:
  "get_audit_xpub toy toy_engine (py ''GroupA'') (py ''Finance'') = Inr (py ''xprv'' @ snd toy_dept_key)"
  by (simp add: get_audit_xpub_def toy_hash_GroupA_Finance toy_derive_dept_key toy_fields
      toy_ExtendedKey_def toy_dept_key_def)

lemma toy_codec_round_trip: "codec_round_trip toy"
proof -
  have "fromExtendedKey toy x = Inr k" if "ExtendedKey toy k True = Inr x" for k x
  proof -
    from that have "fst k" and x: "x = py ''xprv'' @ snd k"
      by (simp_all add: toy_fields toy_ExtendedKey_def split: if_splits)
    then have "k = (True, snd k)" by (cases k) simp
    with x toy_fromExtendedKey_xprv [of "snd k"] show ?thesis by simp
  qed
  then show ?thesis by (simp add: codec_round_trip_def)
qed

lemma toy_from_key_reads_hex: "from_key_reads_hex toy"
  by (simp add: from_key_reads_hex_def toy_from_key_hex toy_from_key_bytes)

lemma toy_private_key_returns:
  assumes "n \<le> 0x100000000"
  shows "derive_addresses_from_xpub toy (py ''xprv'' @ p) n =
    Inr (map (\<lambda>i. py ''0x'' @ bytes_hex (map of_nat (p @ py ''/'' @ str_int (int i)))) [0..<nat n])"
proof -
  let ?a = "\<lambda>i. py ''0x'' @ bytes_hex (map of_nat (p @ py ''/'' @ str_int (int i)))"
  have "child_address toy (True, p) (int i) = Inr (map ?a [0..<nat n] ! i)" if "i < nat n" for i
  proof -
    from that assms have "0 \<le> int i" "int i < 0x100000000" by simp_all
    then have "child_address toy (True, p) (int i) = Inr (?a i)"
      by (rule toy_child_address_private)
    with that show ?thesis by simp
  qed
  then show ?thesis
    using derive_addresses_iff [OF toy_fromExtendedKey_xprv, of p n "map ?a [0..<nat n]"] by simp
qed

text \<open>
  C8 asks that for every extended key string that decodes and every count \<open>n \<ge> 0\<close> the
  call return exactly \<open>n\<close> addresses, element \<open>i\<close> for child index \<open>i\<close>, with no address
  suppressed. On a public extended key, the key the method is documented to take, the
  method returns no list: the string decodes, and with \<open>n = 1\<close> the call raises at
  \<^verbatim>\<open>PrivateKey()\<close> of the first child. On private key material it returns the addresses in
  index order, as the second half of the statement and \<open>toy_private_key_returns\<close> show.
\<close>

theorem derive_addresses_raises_on_public_key:
  "fromExtendedKey toy (py ''xpubm'') = Inr (False, py ''m'') \<and>
   (0::int) \<le> 1 \<and>
   derive_addresses_from_xpub toy (py ''xpubm'') 1 =
     Inl (Raised ''Publicly derived deterministic keys have no private half'') \<and>
   fromExtendedKey toy (py ''xprvm'') = Inr (True, py ''m'') \<and>
   derive_addresses_from_xpub toy (py ''xprvm'') 2 =
     Inr [py ''0x'' @ bytes_hex (map of_nat (py ''m/0'')),
          py ''0x'' @ bytes_hex (map of_nat (py ''m/1''))]"
proof -
  have d: "fromExtendedKey toy (py ''xpubm'') = Inr (False, py ''m'')"
    using toy_fromExtendedKey_xpub [of "py ''m''"] by (simp add: py_def)
  have "py_range 1 = [0]" by (simp add: py_range_def)
  with d have pub: "derive_addresses_from_xpub toy (py ''xpubm'') 1 =
     Inl (Raised ''Publicly derived deterministic keys have no private half'')"
    by (simp add: derive_addresses_from_xpub_def toy_child_address_public)
  have p: "fromExtendedKey toy (py ''xprvm'') = Inr (True, py ''m'')"
    using toy_fromExtendedKey_xprv [of "py ''m''"] by (simp add: py_def)
  have x: "py ''xprvm'' = py ''xprv'' @ py ''m''" by (simp add: py_def)
  have "[0..<nat 2] = [0, 1]" by (simp add: upt_rec)
  then have "derive_addresses_from_xpub toy (py ''xprvm'') 2 =
     Inr [py ''0x'' @ bytes_hex (map of_nat (py ''m'' @ py ''/'' @ str_int 0)),
          py ''0x'' @ bytes_hex (map of_nat (py ''m'' @ py ''/'' @ str_int 1))]"
    unfolding x using toy_private_key_returns [of 2 "py ''m''"] by simp
  moreover have "py ''m'' @ py ''/'' @ str_int 0 = py ''m/0''" "py ''m'' @ py ''/'' @ str_int 1 = py ''m/1''"
    by (simp_all add: py_def str_int_def digits_small)
  ultimately have priv: "derive_addresses_from_xpub toy (py ''xprvm'') 2 =
     Inr [py ''0x'' @ bytes_hex (map of_nat (py ''m/0'')),
          py ''0x'' @ bytes_hex (map of_nat (py ''m/1''))]"
    by simp
  from d pub p priv show ?thesis by simp
qed

section \<open>The audit flow\<close>

lemma get_audit_xpub_Inr:
  assumes "get_audit_xpub L self entity department = Inr x"
  shows "\<exists>e_idx d_idx dept_key.
    hierarchical_hash L entity department = Inr (e_idx, d_idx) \<and>
    derive_key L self [0x8000002C, 0x8000003C, e_idx, d_idx] = Inr dept_key \<and>
    ExtendedKey L dept_key True = Inr x"
proof (cases "hierarchical_hash L entity department")
  case (Inl e)
  with assms show ?thesis by (simp add: get_audit_xpub_def)
next
  case (Inr idx)
  obtain e_idx d_idx where idx: "idx = (e_idx, d_idx)" by (cases idx)
  show ?thesis
  proof (cases "derive_key L self [0x8000002C, 0x8000003C, e_idx, d_idx]")
    case (Inl e)
    with assms Inr idx show ?thesis by (simp add: get_audit_xpub_def)
  next
    case key: (Inr dept_key)
    with assms Inr idx show ?thesis by (simp add: get_audit_xpub_def)
  qed
qed

lemma audit_key_derives_account:
  assumes rt: "codec_round_trip L"
      and x: "get_audit_xpub L self entity department = Inr x"
      and g: "generate_account L self entity department i = Inr acc"
  shows "\<exists>k child secret.
    fromExtendedKey L x = Inr k \<and> ChildKey L k i = Inr child \<and>
    PrivateKey L child = Inr secret \<and> private_key acc = bytes_hex secret \<and>
    from_key_address L (KeyHex (bytes_hex secret)) = Inr (address acc)"
proof -
  from get_audit_xpub_Inr [OF x] obtain e_idx d_idx dept_key where
    h: "hierarchical_hash L entity department = Inr (e_idx, d_idx)" and
    dk: "derive_key L self [0x8000002C, 0x8000003C, e_idx, d_idx] = Inr dept_key" and
    ek: "ExtendedKey L dept_key True = Inr x"
    by blast
  from generate_account_Inr [OF g] h obtain key secret where
    k: "derive_key L self [0x8000002C, 0x8000003C, e_idx, d_idx, i] = Inr key" and
    s: "PrivateKey L key = Inr secret" and
    a: "from_key_address L (KeyHex (bytes_hex secret)) = Inr (address acc)" and
    v: "private_key acc = bytes_hex secret"
    by auto
  from k dk have c: "ChildKey L dept_key i = Inr key" by (simp add: derive_key_account)
  from rt ek have "fromExtendedKey L x = Inr dept_key" by (simp add: codec_round_trip_def)
  with c s v a show ?thesis by blast
qed

lemma audit_addresses_hold_account:
  assumes rt: "codec_round_trip L" and rh: "from_key_reads_hex L"
      and i: "0 \<le> i" "i < N"
      and g: "generate_account L self entity department i = Inr acc"
      and x: "get_audit_xpub L self entity department = Inr xpub"
      and d: "derive_addresses_from_xpub L xpub N = Inr addrs"
  shows "length addrs = nat N \<and> addrs ! nat i = address acc"
proof -
  from audit_key_derives_account [OF rt x g] obtain k child secret where
    dk: "fromExtendedKey L xpub = Inr k" and
    c: "ChildKey L k i = Inr child" and
    s: "PrivateKey L child = Inr secret" and
    a: "from_key_address L (KeyHex (bytes_hex secret)) = Inr (address acc)"
    by blast
  from rh a have "from_key_address L (KeyBytes secret) = Inr (address acc)"
    by (simp add: from_key_reads_hex_def)
  with c s have ca: "child_address L k i = Inr (address acc)"
    by (simp add: child_address_def)
  from derive_addresses_iff [OF dk, of N addrs] d have
    len: "length addrs = nat N" and
    nth: "\<forall>j < nat N. child_address L k (int j) = Inr (addrs ! j)"
    by simp_all
  from i have "nat i < nat N" "int (nat i) = i" by simp_all
  with nth have "child_address L k i = Inr (addrs ! nat i)" by metis
  with ca len show ?thesis by simp
qed

text \<open>
  C2. For entity "GroupA" and department "Finance", an account index \<open>i\<close> in \<open>{0, 1}\<close> and
  a count \<open>N \<ge> i + 1\<close>: the address that \<^verbatim>\<open>generate_account\<close> returns is among the first
  \<open>N\<close> addresses that \<^verbatim>\<open>derive_addresses_from_xpub\<close> returns on the key exported by
  \<^verbatim>\<open>get_audit_xpub\<close> for the same entity and department, at position \<open>i\<close>. The
  collaborators are asked to import an exported key as the key it was, and to read a
  hexadecimal private key as its octets.
\<close>

theorem audit_completeness:
  assumes "codec_round_trip L" and "from_key_reads_hex L"
      and "i = 0 \<or> i = 1" and "i + 1 \<le> N"
      and "generate_account L self (py ''GroupA'') (py ''Finance'') i = Inr acc"
      and "get_audit_xpub L self (py ''GroupA'') (py ''Finance'') = Inr xpub"
      and "derive_addresses_from_xpub L xpub N = Inr addrs"
  shows "address acc \<in> set (take (nat N) addrs) \<and> addrs ! nat i = address acc"
proof -
  from assms(3,4) have i: "0 \<le> i" "i < N" by auto
  from audit_addresses_hold_account [OF assms(1,2) i assms(5,6,7)] have
    len: "length addrs = nat N" and nth: "addrs ! nat i = address acc"
    by simp_all
  from i len have "nat i < length addrs" by simp
  then have "addrs ! nat i \<in> set addrs" by (rule nth_mem)
  with len nth show ?thesis by simp
qed

theorem audit_completeness_witness:
  "codec_round_trip toy \<and> from_key_reads_hex toy \<and>
   \<not> isl (generate_account toy toy_engine (py ''GroupA'') (py ''Finance'') 1) \<and>
   get_audit_xpub toy toy_engine (py ''GroupA'') (py ''Finance'') = Inr (py ''xprv'' @ snd toy_dept_key) \<and>
   \<not> isl (derive_addresses_from_xpub toy (py ''xprv'' @ snd toy_dept_key) 2) \<and>
   address (projr (generate_account toy toy_engine (py ''GroupA'') (py ''Finance'') 1))
     \<in> set (take (nat 2) (projr (derive_addresses_from_xpub toy (py ''xprv'' @ snd toy_dept_key) 2)))"
proof -
  let ?g = "generate_account toy toy_engine (py ''GroupA'') (py ''Finance'') 1"
  let ?d = "derive_addresses_from_xpub toy (py ''xprv'' @ snd toy_dept_key) 2"
  let ?a = "\<lambda>i. py ''0x'' @ bytes_hex (map of_nat (snd toy_dept_key @ py ''/'' @ str_int i))"
  have ng: "\<not> isl ?g" by (simp add: toy_generate_account)
  then have g: "?g = Inr (projr ?g)" by (rule Inr_projr)
  have dk: "fromExtendedKey toy (py ''xprv'' @ snd toy_dept_key) = Inr toy_dept_key"
    by (simp add: toy_fromExtendedKey_xprv toy_dept_key_def)
  have c0: "child_address toy toy_dept_key 0 = Inr (?a 0)"
    by (simp add: toy_dept_key_def toy_child_address_private)
  have c1: "child_address toy toy_dept_key 1 = Inr (?a 1)"
    by (simp add: toy_dept_key_def toy_child_address_private)
  have "\<forall>i < nat 2. child_address toy toy_dept_key (int i) = Inr ([?a 0, ?a 1] ! i)"
  proof (intro allI impI)
    fix i :: nat
    assume "i < nat 2"
    then have "i = 0 \<or> i = 1" by auto
    then show "child_address toy toy_dept_key (int i) = Inr ([?a 0, ?a 1] ! i)"
      using c0 c1 by auto
  qed
  then have "?d = Inr [?a 0, ?a 1]"
    using derive_addresses_iff [OF dk, of 2 "[?a 0, ?a 1]"] by simp
  then have nd: "\<not> isl ?d" by simp
  then have d: "?d = Inr (projr ?d)" by (rule Inr_projr)
  have i: "(1::int) = 0 \<or> (1::int) = 1" "(1::int) + 1 \<le> 2" by simp_all
  from audit_completeness [OF toy_codec_round_trip toy_from_key_reads_hex i g toy_get_audit_xpub d]
  have "address (projr ?g) \<in> set (take (nat 2) (projr ?d))" by simp
  with toy_codec_round_trip toy_from_key_reads_hex ng toy_get_audit_xpub nd show ?thesis
    by simp
qed

text \<open>
  C1 asks that \<^verbatim>\<open>get_audit_xpub\<close> neuter the department key and return a public
  extended key that holds no private key material. The method does neither: it calls
  \<^verbatim>\<open>ExtendedKey()\<close> on the private department key, as \<^verbatim>\<open>get_dept_xprv\<close> does. What it
  returns is the private export, and importing it gives a key from which the private key
  of every account of the department derives.
\<close>

theorem audit_export_reveals_private_keys:
  assumes "codec_round_trip L"
      and "get_audit_xpub L self entity department = Inr x"
      and "generate_account L self entity department i = Inr acc"
  shows "get_dept_xprv L self entity department = Inr x \<and>
    (\<exists>k child secret.
       fromExtendedKey L x = Inr k \<and> ChildKey L k i = Inr child \<and>
       PrivateKey L child = Inr secret \<and> private_key acc = bytes_hex secret)"
proof -
  have "get_dept_xprv L self entity department = get_audit_xpub L self entity department"
    by (simp add: get_audit_xpub_def get_dept_xprv_def)
  with assms(2) have "get_dept_xprv L self entity department = Inr x" by simp
  moreover from audit_key_derives_account [OF assms] have
    "\<exists>k child secret.
       fromExtendedKey L x = Inr k \<and> ChildKey L k i = Inr child \<and>
       PrivateKey L child = Inr secret \<and> private_key acc = bytes_hex secret"
    by blast
  ultimately show ?thesis by simp
qed

theorem audit_export_reveals_private_keys_witness:
  "codec_round_trip toy \<and>
   get_audit_xpub toy toy_engine (py ''GroupA'') (py ''Finance'') = Inr (py ''xprv'' @ snd toy_dept_key) \<and>
   get_dept_xprv toy toy_engine (py ''GroupA'') (py ''Finance'') = Inr (py ''xprv'' @ snd toy_dept_key) \<and>
   (\<exists>k child secret.
      fromExtendedKey toy (py ''xprv'' @ snd toy_dept_key) = Inr k \<and>
      ChildKey toy k 0 = Inr child \<and> PrivateKey toy child = Inr secret \<and>
      private_key (projr (generate_account toy toy_engine (py ''GroupA'') (py ''Finance'') 0))
        = bytes_hex secret)"
proof -
  let ?g = "generate_account toy toy_engine (py ''GroupA'') (py ''Finance'') 0"
  have "\<not> isl ?g" by (simp add: toy_generate_account)
  then have g: "?g = Inr (projr ?g)" by (rule Inr_projr)
  from audit_export_reveals_private_keys [OF toy_codec_round_trip toy_get_audit_xpub g]
    toy_codec_round_trip toy_get_audit_xpub
  show ?thesis by simp
qed

text \<open>
  C3 asks that \<^verbatim>\<open>derive_addresses_from_xpub\<close> refuse private key material and derive
  addresses from public keys alone. The method calls \<^verbatim>\<open>PrivateKey()\<close> on every child key:
  on a key whose first child has no private half (any public extended key) it raises the
  collaborator's exception for every positive count, and it returns addresses only on
  private key material.
\<close>

theorem derive_addresses_needs_private_key:
  assumes "fromExtendedKey L xpub = Inr k"
      and "ChildKey L k 0 = Inr child"
      and "PrivateKey L child = Inl e"
      and "0 < count"
  shows "derive_addresses_from_xpub L xpub count = Inl e"
proof -
  from assms(2,3) have "child_address L k 0 = Inl e" by (simp add: child_address_def)
  with assms(1) py_range_pos [OF assms(4)] show ?thesis
    by (simp add: derive_addresses_from_xpub_def)
qed

theorem derive_addresses_needs_private_key_witness:
  "fromExtendedKey toy (py ''xpubm'') = Inr (False, py ''m'') \<and>
   ChildKey toy (False, py ''m'') 0 = Inr (False, py ''m'' @ py ''/'' @ str_int 0) \<and>
   PrivateKey toy (False, py ''m'' @ py ''/'' @ str_int 0) =
     Inl (Raised ''Publicly derived deterministic keys have no private half'') \<and>
   (0::int) < 2 \<and>
   derive_addresses_from_xpub toy (py ''xpubm'') 2 =
     Inl (Raised ''Publicly derived deterministic keys have no private half'')"
proof -
  have d: "fromExtendedKey toy (py ''xpubm'') = Inr (False, py ''m'')"
    using toy_fromExtendedKey_xpub [of "py ''m''"] by (simp add: py_def)
  have c: "ChildKey toy (False, py ''m'') 0 = Inr (False, py ''m'' @ py ''/'' @ str_int 0)"
    by (simp add: toy_ChildKey_public)
  have "(0::int) < 2" by simp
  from derive_addresses_needs_private_key [OF d c toy_PrivateKey_public this] d c
    toy_PrivateKey_public [of "py ''m'' @ py ''/'' @ str_int 0"]
  show ?thesis by simp
qed

section \<open>The engine is read only\<close>

lemma extends_refl: "extends h h"
  by (simp add: extends_def)

lemma extends_length: "extends h h' \<Longrightarrow> length h \<le> length h'"
proof -
  assume "extends h h'"
  then have "length (take (length h) h') = length h" by (simp add: extends_def)
  then show ?thesis by simp
qed

lemma extends_nth: "extends h h' \<Longrightarrow> i < length h \<Longrightarrow> h' ! i = h ! i"
proof -
  assume e: "extends h h'" and i: "i < length h"
  have "take (length h) h' ! i = h' ! i" using i by simp
  with e show ?thesis by (simp add: extends_def)
qed

lemma extends_trans: "extends h1 h2 \<Longrightarrow> extends h2 h3 \<Longrightarrow> extends h1 h3"
proof -
  assume a: "extends h1 h2" and b: "extends h2 h3"
  from a have l: "length h1 \<le> length h2" by (rule extends_length)
  have "take (length h1) h3 = take (length h1) (take (length h2) h3)"
    using l by (simp add: min_def)
  also have "\<dots> = take (length h1) h2" using b by (simp add: extends_def)
  also have "\<dots> = h1" using a by (simp add: extends_def)
  finally show ?thesis by (simp add: extends_def)
qed

lemma extends_append: "extends h (h @ zs)"
  by (simp add: extends_def)

lemma implements_ChildKey:
  assumes "implements M P" and "a < length h" and "ChildKey_m M a i h = (r, h')"
  shows "extends h h' \<and>
        (case r of
           Inl e \<Rightarrow> ChildKey P (h ! a) i = Inl e
         | Inr c \<Rightarrow> c < length h' \<and> ChildKey P (h ! a) i = Inr (h' ! c))"
proof -
  from assms(1) have "\<forall>a i h r h'. a < length h \<longrightarrow> ChildKey_m M a i h = (r, h') \<longrightarrow>
        extends h h' \<and>
        (case r of
           Inl e \<Rightarrow> ChildKey P (h ! a) i = Inl e
         | Inr c \<Rightarrow> c < length h' \<and> ChildKey P (h ! a) i = Inr (h' ! c))"
    by (simp add: implements_def)
  with assms(2,3) show ?thesis by blast
qed

lemma implements_PrivateKey:
  assumes "implements M P" and "a < length h" and "PrivateKey_m M a h = (r, h')"
  shows "extends h h' \<and> r = PrivateKey P (h ! a)"
proof -
  from assms(1) have "\<forall>a h r h'. a < length h \<longrightarrow> PrivateKey_m M a h = (r, h') \<longrightarrow>
        extends h h' \<and> r = PrivateKey P (h ! a)"
    by (simp add: implements_def)
  with assms(2,3) show ?thesis by blast
qed

lemma implements_ExtendedKey:
  assumes "implements M P" and "a < length h" and "ExtendedKey_m M a private h = (r, h')"
  shows "extends h h' \<and> r = ExtendedKey P (h ! a) private"
proof -
  from assms(1) have "\<forall>a b h r h'. a < length h \<longrightarrow> ExtendedKey_m M a b h = (r, h') \<longrightarrow>
        extends h h' \<and> r = ExtendedKey P (h ! a) b"
    by (simp add: implements_def)
  with assms(2,3) show ?thesis by blast
qed

lemma implements_fromExtendedKey:
  assumes "implements M P" and "fromExtendedKey_m M x h = (r, h')"
  shows "extends h h' \<and>
        (case r of
           Inl e \<Rightarrow> fromExtendedKey P x = Inl e
         | Inr k \<Rightarrow> k < length h' \<and> fromExtendedKey P x = Inr (h' ! k))"
proof -
  from assms(1) have "\<forall>x h r h'. fromExtendedKey_m M x h = (r, h') \<longrightarrow>
        extends h h' \<and>
        (case r of
           Inl e \<Rightarrow> fromExtendedKey P x = Inl e
         | Inr k \<Rightarrow> k < length h' \<and> fromExtendedKey P x = Inr (h' ! k))"
    by (simp add: implements_def)
  with assms(2) show ?thesis by blast
qed

lemma derive_loop_st_refines:
  assumes "implements M P"
  shows "cur < length h \<Longrightarrow> derive_loop_st M cur segments h = (r, h') \<Longrightarrow>
    extends h h' \<and>
    (case r of
       Inl e \<Rightarrow> derive_loop P (h ! cur) segments = Inl e
     | Inr k \<Rightarrow> k < length h' \<and> derive_loop P (h ! cur) segments = Inr (h' ! k))"
proof (induction segments arbitrary: cur h r h')
  case Nil
  then show ?case by (auto simp: extends_refl)
next
  case (Cons index rest)
  obtain r1 h1 where c: "ChildKey_m M cur index h = (r1, h1)" by (cases "ChildKey_m M cur index h")
  from implements_ChildKey [OF assms Cons.prems(1) c] have
    e1: "extends h h1" and
    p1: "case r1 of
           Inl e \<Rightarrow> ChildKey P (h ! cur) index = Inl e
         | Inr c \<Rightarrow> c < length h1 \<and> ChildKey P (h ! cur) index = Inr (h1 ! c)"
    by simp_all
  show ?case
  proof (cases r1)
    case (Inl e)
    with c Cons.prems(2) have "r = Inl e" "h' = h1" by simp_all
    with e1 p1 Inl show ?thesis by simp
  next
    case (Inr k)
    with p1 have k: "k < length h1" and ck: "ChildKey P (h ! cur) index = Inr (h1 ! k)" by simp_all
    from c Inr Cons.prems(2) have "derive_loop_st M k rest h1 = (r, h')" by simp
    from Cons.IH [OF k this] have
      e2: "extends h1 h'" and
      p2: "case r of
             Inl e \<Rightarrow> derive_loop P (h1 ! k) rest = Inl e
           | Inr k' \<Rightarrow> k' < length h' \<and> derive_loop P (h1 ! k) rest = Inr (h' ! k')"
      by simp_all
    from e1 e2 have "extends h h'" by (rule extends_trans)
    with p2 ck show ?thesis by (simp split: sum.splits)
  qed
qed

lemma child_address_st_refines:
  assumes "implements M P" and "k < length h" and "child_address_st P M k i h = (r, h')"
  shows "extends h h' \<and> r = child_address P (h ! k) i"
proof -
  obtain r1 h1 where c: "ChildKey_m M k i h = (r1, h1)" by (cases "ChildKey_m M k i h")
  from implements_ChildKey [OF assms(1,2) c] have
    e1: "extends h h1" and
    p1: "case r1 of
           Inl e \<Rightarrow> ChildKey P (h ! k) i = Inl e
         | Inr c \<Rightarrow> c < length h1 \<and> ChildKey P (h ! k) i = Inr (h1 ! c)"
    by simp_all
  show ?thesis
  proof (cases r1)
    case (Inl e)
    with c assms(3) have "r = Inl e" "h' = h1" by (simp_all add: child_address_st_def)
    with e1 p1 Inl show ?thesis by (simp add: child_address_def)
  next
    case (Inr child)
    with p1 have ch: "child < length h1" and ck: "ChildKey P (h ! k) i = Inr (h1 ! child)"
      by simp_all
    obtain r2 h2 where s: "PrivateKey_m M child h1 = (r2, h2)" by (cases "PrivateKey_m M child h1")
    from implements_PrivateKey [OF assms(1) ch s] have
      e2: "extends h1 h2" and p2: "PrivateKey P (h1 ! child) = r2" by simp_all
    from e1 e2 have e: "extends h h2" by (rule extends_trans)
    show ?thesis
    proof (cases r2)
      case (Inl e')
      with c Inr s assms(3) have "r = Inl e'" "h' = h2" by (simp_all add: child_address_st_def)
      with e p2 ck Inl show ?thesis by (simp add: child_address_def)
    next
      case secret: (Inr secret)
      with c Inr s assms(3) have "r = from_key_address P (KeyBytes secret)" "h' = h2"
        by (simp_all add: child_address_st_def)
      with e p2 ck secret show ?thesis by (simp add: child_address_def)
    qed
  qed
qed

lemma addresses_loop_st_refines:
  assumes "implements M P"
  shows "k < length h \<Longrightarrow> addresses_loop_st P M k idxs h = (r, h') \<Longrightarrow>
    extends h h' \<and> r = addresses_loop P (h ! k) idxs"
proof (induction idxs arbitrary: h r h')
  case Nil
  then show ?case by (auto simp: extends_refl)
next
  case (Cons i rest)
  obtain r1 h1 where c: "child_address_st P M k i h = (r1, h1)"
    by (cases "child_address_st P M k i h")
  from child_address_st_refines [OF assms Cons.prems(1) c] have
    e1: "extends h h1" and p1: "child_address P (h ! k) i = r1" by simp_all
  show ?case
  proof (cases r1)
    case (Inl e)
    with c Cons.prems(2) have "r = Inl e" "h' = h1" by simp_all
    with e1 p1 Inl show ?thesis by simp
  next
    case (Inr a)
    from e1 Cons.prems(1) have k1: "k < length h1" and same: "h1 ! k = h ! k"
      using extends_length [OF e1] extends_nth [OF e1] by simp_all
    obtain r2 h2 where l: "addresses_loop_st P M k rest h1 = (r2, h2)"
      by (cases "addresses_loop_st P M k rest h1")
    from Cons.IH [OF k1 l] same have
      e2: "extends h1 h2" and p2: "addresses_loop P (h ! k) rest = r2" by simp_all
    from e1 e2 have e: "extends h h2" by (rule extends_trans)
    show ?thesis
    proof (cases r2)
      case (Inl e')
      with c Inr l Cons.prems(2) have "r = Inl e'" "h' = h2" by simp_all
      with e p1 p2 Inr Inl show ?thesis by simp
    next
      case others: (Inr others)
      with c Inr l Cons.prems(2) have "r = Inr (a # others)" "h' = h2" by simp_all
      with e p1 p2 Inr others show ?thesis by simp
    qed
  qed
qed

lemma derive_key_st_refines:
  assumes "implements M P" and "self_root_key w < length (objects w)"
      and "derive_key_st M segments w = (r, w1)"
  shows "self_seed w1 = self_seed w \<and> self_root_key w1 = self_root_key w \<and>
    extends (objects w) (objects w1) \<and>
    (case r of
       Inl e \<Rightarrow> derive_key P (engine_of w) segments = Inl e
     | Inr k \<Rightarrow> k < length (objects w1) \<and> derive_key P (engine_of w) segments = Inr (objects w1 ! k))"
proof -
  obtain r0 h' where l: "derive_loop_st M (self_root_key w) segments (objects w) = (r0, h')"
    by (cases "derive_loop_st M (self_root_key w) segments (objects w)")
  with assms(3) have rw: "r = r0" "w1 = w\<lparr>objects := h'\<rparr>" by (simp_all add: derive_key_st_def)
  from derive_loop_st_refines [OF assms(1,2) l] rw show ?thesis
    by (cases r0) (simp_all add: derive_key_def engine_of_def)
qed

lemma generate_account_st_refines:
  assumes "implements M P" and "self_root_key w < length (objects w)"
      and "generate_account_st P M entity department account_idx w = (r, w')"
  shows "self_seed w' = self_seed w \<and> self_root_key w' = self_root_key w \<and>
    extends (objects w) (objects w') \<and>
    r = generate_account P (engine_of w) entity department account_idx"
proof (cases "hierarchical_hash P entity department")
  case (Inl e)
  with assms(3) show ?thesis
    by (simp add: generate_account_st_def generate_account_def extends_refl)
next
  case (Inr idx)
  obtain e_idx d_idx where idx: "idx = (e_idx, d_idx)" by (cases idx)
  let ?segs = "[0x8000002C, 0x8000003C, e_idx, d_idx, account_idx]"
  obtain r1 w1 where d: "derive_key_st M ?segs w = (r1, w1)" by (cases "derive_key_st M ?segs w")
  from derive_key_st_refines [OF assms(1,2) d] have
    f1: "self_seed w1 = self_seed w" "self_root_key w1 = self_root_key w" and
    e1: "extends (objects w) (objects w1)" and
    p1: "case r1 of
           Inl e \<Rightarrow> derive_key P (engine_of w) ?segs = Inl e
         | Inr k \<Rightarrow> k < length (objects w1) \<and> derive_key P (engine_of w) ?segs = Inr (objects w1 ! k)"
    by simp_all
  show ?thesis
  proof (cases r1)
    case (Inl e)
    with assms(3) Inr idx d have "r = Inl e" "w' = w1" by (simp_all add: generate_account_st_def)
    with f1 e1 p1 Inl Inr idx show ?thesis by (simp add: generate_account_def)
  next
    case key: (Inr key)
    with p1 have k: "key < length (objects w1)" and
      dk: "derive_key P (engine_of w) ?segs = Inr (objects w1 ! key)" by simp_all
    obtain r2 h2 where s: "PrivateKey_m M key (objects w1) = (r2, h2)"
      by (cases "PrivateKey_m M key (objects w1)")
    from implements_PrivateKey [OF assms(1) k s] have
      e2: "extends (objects w1) h2" and p2: "PrivateKey P (objects w1 ! key) = r2" by simp_all
    from e1 e2 have e: "extends (objects w) h2" by (rule extends_trans)
    show ?thesis
    proof (cases r2)
      case (Inl e')
      with assms(3) Inr idx d key s have "r = Inl e'" "w' = w1\<lparr>objects := h2\<rparr>"
        by (simp_all add: generate_account_st_def)
      with f1 e p2 dk Inl Inr idx show ?thesis by (simp add: generate_account_def)
    next
      case secret: (Inr secret)
      show ?thesis
      proof (cases "from_key_address P (KeyHex (bytes_hex secret))")
        case (Inl e')
        with assms(3) Inr idx d key s secret have "r = Inl e'" "w' = w1\<lparr>objects := h2\<rparr>"
          by (simp_all add: generate_account_st_def)
        with f1 e p2 dk Inl secret Inr idx show ?thesis by (simp add: generate_account_def)
      next
        case a: (Inr a)
        with assms(3) Inr idx d key s secret have
          "r = Inr \<lparr>path = py ''m/44'/60'/'' @ str_int e_idx @ py '''/'' @ str_int d_idx
                          @ py '''/'' @ str_int account_idx,
                   private_key = bytes_hex secret, address = a\<rparr>"
          "w' = w1\<lparr>objects := h2\<rparr>"
          by (simp_all add: generate_account_st_def)
        with f1 e p2 dk a secret Inr idx show ?thesis by (simp add: generate_account_def)
      qed
    qed
  qed
qed

lemma get_audit_xpub_st_refines:
  assumes "implements M P" and "self_root_key w < length (objects w)"
      and "get_audit_xpub_st P M entity department w = (r, w')"
  shows "self_seed w' = self_seed w \<and> self_root_key w' = self_root_key w \<and>
    extends (objects w) (objects w') \<and>
    r = get_audit_xpub P (engine_of w) entity department"
proof (cases "hierarchical_hash P entity department")
  case (Inl e)
  with assms(3) show ?thesis
    by (simp add: get_audit_xpub_st_def get_audit_xpub_def extends_refl)
next
  case (Inr idx)
  obtain e_idx d_idx where idx: "idx = (e_idx, d_idx)" by (cases idx)
  let ?segs = "[0x8000002C, 0x8000003C, e_idx, d_idx]"
  obtain r1 w1 where d: "derive_key_st M ?segs w = (r1, w1)" by (cases "derive_key_st M ?segs w")
  from derive_key_st_refines [OF assms(1,2) d] have
    f1: "self_seed w1 = self_seed w" "self_root_key w1 = self_root_key w" and
    e1: "extends (objects w) (objects w1)" and
    p1: "case r1 of
           Inl e \<Rightarrow> derive_key P (engine_of w) ?segs = Inl e
         | Inr k \<Rightarrow> k < length (objects w1) \<and> derive_key P (engine_of w) ?segs = Inr (objects w1 ! k)"
    by simp_all
  show ?thesis
  proof (cases r1)
    case (Inl e)
    with assms(3) Inr idx d have "r = Inl e" "w' = w1" by (simp_all add: get_audit_xpub_st_def)
    with f1 e1 p1 Inl Inr idx show ?thesis by (simp add: get_audit_xpub_def)
  next
    case key: (Inr key)
    with p1 have k: "key < length (objects w1)" and
      dk: "derive_key P (engine_of w) ?segs = Inr (objects w1 ! key)" by simp_all
    obtain r2 h2 where s: "ExtendedKey_m M key True (objects w1) = (r2, h2)"
      by (cases "ExtendedKey_m M key True (objects w1)")
    from implements_ExtendedKey [OF assms(1) k s] have
      e2: "extends (objects w1) h2" and p2: "ExtendedKey P (objects w1 ! key) True = r2" by simp_all
    from e1 e2 have e: "extends (objects w) h2" by (rule extends_trans)
    from assms(3) Inr idx d key s have "r = r2" "w' = w1\<lparr>objects := h2\<rparr>"
      by (simp_all add: get_audit_xpub_st_def)
    with f1 e p2 dk Inr idx show ?thesis by (simp add: get_audit_xpub_def)
  qed
qed

lemma get_dept_xprv_st_refines:
  assumes "implements M P" and "self_root_key w < length (objects w)"
      and "get_dept_xprv_st P M entity department w = (r, w')"
  shows "self_seed w' = self_seed w \<and> self_root_key w' = self_root_key w \<and>
    extends (objects w) (objects w') \<and>
    r = get_dept_xprv P (engine_of w) entity department"
proof -
  have "get_dept_xprv_st P M entity department w = get_audit_xpub_st P M entity department w"
    by (simp add: get_dept_xprv_st_def get_audit_xpub_st_def)
  moreover have "get_dept_xprv P (engine_of w) entity department =
      get_audit_xpub P (engine_of w) entity department"
    by (simp add: get_dept_xprv_def get_audit_xpub_def)
  ultimately show ?thesis
    using get_audit_xpub_st_refines [OF assms(1,2), of entity department r w'] assms(3) by simp
qed

lemma derive_addresses_from_xpub_st_refines:
  assumes "implements M P"
      and "derive_addresses_from_xpub_st P M xpub count w = (r, w')"
  shows "self_seed w' = self_seed w \<and> self_root_key w' = self_root_key w \<and>
    extends (objects w) (objects w') \<and>
    r = derive_addresses_from_xpub P xpub count"
proof -
  obtain r1 h1 where d: "fromExtendedKey_m M xpub (objects w) = (r1, h1)"
    by (cases "fromExtendedKey_m M xpub (objects w)")
  from implements_fromExtendedKey [OF assms(1) d] have
    e1: "extends (objects w) h1" and
    p1: "case r1 of
           Inl e \<Rightarrow> fromExtendedKey P xpub = Inl e
         | Inr k \<Rightarrow> k < length h1 \<and> fromExtendedKey P xpub = Inr (h1 ! k)"
    by simp_all
  show ?thesis
  proof (cases r1)
    case (Inl e)
    with assms(2) d have "r = Inl e" "w' = w\<lparr>objects := h1\<rparr>"
      by (simp_all add: derive_addresses_from_xpub_st_def)
    with e1 p1 Inl show ?thesis by (simp add: derive_addresses_from_xpub_def)
  next
    case (Inr audit_key)
    with p1 have k: "audit_key < length h1" and
      dk: "fromExtendedKey P xpub = Inr (h1 ! audit_key)" by simp_all
    obtain r2 h2 where l: "addresses_loop_st P M audit_key (py_range count) h1 = (r2, h2)"
      by (cases "addresses_loop_st P M audit_key (py_range count) h1")
    from addresses_loop_st_refines [OF assms(1) k l] have
      e2: "extends h1 h2" and p2: "addresses_loop P (h1 ! audit_key) (py_range count) = r2"
      by simp_all
    from e1 e2 have e: "extends (objects w) h2" by (rule extends_trans)
    from assms(2) d Inr l have "r = r2" "w' = w\<lparr>objects := h2\<rparr>"
      by (simp_all add: derive_addresses_from_xpub_st_def)
    with e p2 dk show ?thesis by (simp add: derive_addresses_from_xpub_def)
  qed
qed

lemma invoke_refines:
  assumes "implements M P" and "self_root_key w < length (objects w)"
      and "invoke P M c w = (r, w')"
  shows "self_seed w' = self_seed w \<and> self_root_key w' = self_root_key w \<and>
    extends (objects w) (objects w') \<and>
    r = call_result P (engine_of w) c"
proof (cases c)
  case (Generate_account entity department account_idx)
  obtain r0 w0 where o: "generate_account_st P M entity department account_idx w = (r0, w0)"
    by (cases "generate_account_st P M entity department account_idx w")
  with assms(3) Generate_account have "r = lift_result Account r0" "w' = w0" by simp_all
  with generate_account_st_refines [OF assms(1,2) o] Generate_account show ?thesis by simp
next
  case (Get_audit_xpub entity department)
  obtain r0 w0 where o: "get_audit_xpub_st P M entity department w = (r0, w0)"
    by (cases "get_audit_xpub_st P M entity department w")
  with assms(3) Get_audit_xpub have "r = lift_result Text r0" "w' = w0" by simp_all
  with get_audit_xpub_st_refines [OF assms(1,2) o] Get_audit_xpub show ?thesis by simp
next
  case (Get_dept_xprv entity department)
  obtain r0 w0 where o: "get_dept_xprv_st P M entity department w = (r0, w0)"
    by (cases "get_dept_xprv_st P M entity department w")
  with assms(3) Get_dept_xprv have "r = lift_result Text r0" "w' = w0" by simp_all
  with get_dept_xprv_st_refines [OF assms(1,2) o] Get_dept_xprv show ?thesis by simp
next
  case (Derive_addresses_from_xpub xpub count)
  obtain r0 w0 where o: "derive_addresses_from_xpub_st P M xpub count w = (r0, w0)"
    by (cases "derive_addresses_from_xpub_st P M xpub count w")
  with assms(3) Derive_addresses_from_xpub have "r = lift_result Addresses r0" "w' = w0" by simp_all
  with derive_addresses_from_xpub_st_refines [OF assms(1) o] Derive_addresses_from_xpub
  show ?thesis by simp
qed

lemma run_refines:
  assumes "implements M P"
  shows "self_root_key w < length (objects w) \<Longrightarrow>
    self_seed (run P M cs w) = self_seed w \<and>
    self_root_key (run P M cs w) = self_root_key w \<and>
    extends (objects w) (objects (run P M cs w))"
proof (induction cs arbitrary: w)
  case Nil
  then show ?case by (simp add: extends_refl)
next
  case (Cons c cs)
  obtain r w1 where i: "invoke P M c w = (r, w1)" by (cases "invoke P M c w")
  from invoke_refines [OF assms Cons.prems i] have
    f: "self_seed w1 = self_seed w" "self_root_key w1 = self_root_key w" and
    e: "extends (objects w) (objects w1)"
    by simp_all
  from e Cons.prems f have "self_root_key w1 < length (objects w1)"
    using extends_length [OF e] by simp
  from Cons.IH [OF this] f have
    "self_seed (run P M cs w1) = self_seed w"
    "self_root_key (run P M cs w1) = self_root_key w"
    "extends (objects w1) (objects (run P M cs w1))"
    by simp_all
  with e i show ?case by (simp add: extends_trans [OF e])
qed

lemma engine_of_run:
  assumes "implements M P" and "self_root_key w < length (objects w)"
  shows "engine_of (run P M cs w) = engine_of w \<and>
    self_root_key (run P M cs w) < length (objects (run P M cs w)) \<and>
    objects (run P M cs w) ! self_root_key w = objects w ! self_root_key w"
proof -
  from run_refines [OF assms, of cs] have
    f: "self_seed (run P M cs w) = self_seed w" "self_root_key (run P M cs w) = self_root_key w" and
    e: "extends (objects w) (objects (run P M cs w))"
    by simp_all
  from extends_nth [OF e assms(2)] extends_length [OF e] f assms(2) show ?thesis
    by (simp add: engine_of_def)
qed

text \<open>
  C10. No public operation (\<^verbatim>\<open>generate_account\<close>, \<^verbatim>\<open>get_audit_xpub\<close>,
  \<^verbatim>\<open>get_dept_xprv\<close>, \<^verbatim>\<open>derive_addresses_from_xpub\<close>) changes the engine. With
  methods of \<^verbatim>\<open>BIP32Key\<close> that leave the objects they are called on as they are: after any
  sequence of calls \<^verbatim>\<open>self.seed\<close> is what it was, \<^verbatim>\<open>self.root_key\<close> refers to the same
  object, and this object is what it was; and a call made after such a sequence returns
  what the same call returns on the engine as constructed, which is what the operation
  written on key values returns.
\<close>

theorem operations_leave_engine_unchanged:
  assumes "implements M P" and "self_root_key w < length (objects w)"
  shows "self_seed (run P M cs w) = self_seed w \<and>
    self_root_key (run P M cs w) = self_root_key w \<and>
    objects (run P M cs w) ! self_root_key w = objects w ! self_root_key w \<and>
    fst (invoke P M c (run P M cs w)) = call_result P (engine_of w) c \<and>
    fst (invoke P M c (run P M cs w)) = fst (invoke P M c w)"
proof -
  from engine_of_run [OF assms, of cs] have
    en: "engine_of (run P M cs w) = engine_of w" and
    lt: "self_root_key (run P M cs w) < length (objects (run P M cs w))" and
    ob: "objects (run P M cs w) ! self_root_key w = objects w ! self_root_key w"
    by simp_all
  have a: "fst (invoke P M c (run P M cs w)) = call_result P (engine_of w) c"
    using invoke_refines [OF assms(1) lt, of c "fst (invoke P M c (run P M cs w))"
        "snd (invoke P M c (run P M cs w))"] en
    by simp
  have b: "fst (invoke P M c w) = call_result P (engine_of w) c"
    using invoke_refines [OF assms, of c "fst (invoke P M c w)" "snd (invoke P M c w)"]
    by simp
  from run_refines [OF assms, of cs] ob a b show ?thesis by simp
qed

lemma toy_methods_implement: "implements toy_methods toy"
proof -
  have c: "extends h h' \<and>
        (case r of
           Inl e \<Rightarrow> ChildKey toy (h ! a) i = Inl e
         | Inr c \<Rightarrow> c < length h' \<and> ChildKey toy (h ! a) i = Inr (h' ! c))"
    if "ChildKey_m toy_methods a i h = (r, h')" for a i h r h'
    using that
    by (cases "toy_ChildKey (h ! a) i")
      (auto simp: toy_methods_def toy_fields extends_refl extends_append)
  have f: "extends h h' \<and>
        (case r of
           Inl e \<Rightarrow> fromExtendedKey toy x = Inl e
         | Inr k \<Rightarrow> k < length h' \<and> fromExtendedKey toy x = Inr (h' ! k))"
    if "fromExtendedKey_m toy_methods x h = (r, h')" for x h r h'
    using that
    by (cases "toy_fromExtendedKey x")
      (auto simp: toy_methods_def toy_fields extends_refl extends_append)
  have p: "extends h h' \<and> r = PrivateKey toy (h ! a)"
    if "PrivateKey_m toy_methods a h = (r, h')" for a h r h'
    using that by (auto simp: toy_methods_def toy_fields extends_refl)
  have x: "extends h h' \<and> r = ExtendedKey toy (h ! a) b"
    if "ExtendedKey_m toy_methods a b h = (r, h')" for a b h r h'
    using that by (auto simp: toy_methods_def toy_fields extends_refl)
  from c f p x show ?thesis unfolding implements_def by blast
qed

lemma engine_of_toy_world: "engine_of toy_world = toy_engine"
  by (simp add: engine_of_def toy_world_def toy_engine_def)

theorem operations_leave_engine_unchanged_witness:
  "implements toy_methods toy \<and>
   self_root_key toy_world < length (objects toy_world) \<and>
   self_seed (run toy toy_methods
       [Generate_account (py ''GroupA'') (py ''Finance'') 0,
        Get_audit_xpub (py ''GroupA'') (py ''Finance'')] toy_world) = replicate 64 0 \<and>
   self_root_key (run toy toy_methods
       [Generate_account (py ''GroupA'') (py ''Finance'') 0,
        Get_audit_xpub (py ''GroupA'') (py ''Finance'')] toy_world) = 0 \<and>
   objects (run toy toy_methods
       [Generate_account (py ''GroupA'') (py ''Finance'') 0,
        Get_audit_xpub (py ''GroupA'') (py ''Finance'')] toy_world) ! 0 = (True, py ''m'') \<and>
   fst (invoke toy toy_methods (Get_audit_xpub (py ''GroupA'') (py ''Finance''))
     (run toy toy_methods
       [Generate_account (py ''GroupA'') (py ''Finance'') 0,
        Get_audit_xpub (py ''GroupA'') (py ''Finance'')] toy_world))
     = Inr (Text (py ''xprv'' @ snd toy_dept_key))"
proof -
  have r: "self_root_key toy_world < length (objects toy_world)" by (simp add: toy_world_def)
  have v: "call_result toy toy_engine (Get_audit_xpub (py ''GroupA'') (py ''Finance''))
      = Inr (Text (py ''xprv'' @ snd toy_dept_key))"
    by (simp add: toy_get_audit_xpub lift_result_def)
  from operations_leave_engine_unchanged [OF toy_methods_implement r,
      of "[Generate_account (py ''GroupA'') (py ''Finance'') 0,
           Get_audit_xpub (py ''GroupA'') (py ''Finance'')]"
         "Get_audit_xpub (py ''GroupA'') (py ''Finance'')"]
    toy_methods_implement r v
  show ?thesis by (simp add: engine_of_toy_world) (simp add: toy_world_def)
qed

text \<open>
  The hypothesis on the methods is needed: \<^verbatim>\<open>_derive_key\<close> calls \<^verbatim>\<open>ChildKey\<close> on the
  root key object itself, and with a \<^verbatim>\<open>ChildKey\<close> that overwrote the key it is called
  on, one call of \<^verbatim>\<open>get_audit_xpub\<close> would leave the department key where the root key
  was.
\<close>

lemma in_place_ChildKey_changes_root_key:
  "objects (snd (invoke toy in_place_methods (Get_audit_xpub (py ''GroupA'') (py ''Finance''))
      toy_world)) ! self_root_key toy_world = toy_dept_key \<and>
   objects toy_world ! self_root_key toy_world = (True, py ''m'') \<and>
   toy_dept_key \<noteq> (True, py ''m'')"
proof -
  have c: "ChildKey_m in_place_methods =
      (\<lambda>a i h. case toy_ChildKey (h ! a) i of
                  Inl e \<Rightarrow> (Inl e, h)
                | Inr k \<Rightarrow> (Inr a, h[a := k]))"
    by (simp add: in_place_methods_def)
  have x: "ExtendedKey_m in_place_methods = (\<lambda>a b h. (toy_ExtendedKey (h ! a) b, h))"
    by (simp add: in_place_methods_def toy_methods_def)
  have d: "derive_loop_st in_place_methods 0 [0x8000002C, 0x8000003C, 3245372783, 3848498785]
      [(True, py ''m'')] = (Inr 0, [toy_dept_key])"
    by (simp add: c toy_ChildKey_def toy_dept_key_def py_def str_int_def digits_small digits_large)
  have "objects (snd (get_audit_xpub_st toy in_place_methods (py ''GroupA'') (py ''Finance'')
      toy_world)) = [toy_dept_key]"
    by (simp add: get_audit_xpub_st_def toy_hash_GroupA_Finance derive_key_st_def toy_world_def d x
        del: derive_loop_st.simps)
  then have "objects (snd (invoke toy in_place_methods
      (Get_audit_xpub (py ''GroupA'') (py ''Finance'')) toy_world)) = [toy_dept_key]"
    by (simp add: split_beta)
  moreover have "toy_dept_key \<noteq> (True, py ''m'')"
    by (simp add: toy_dept_key_def py_def)
  ultimately show ?thesis by (simp add: toy_world_def)
qed

end
